theory Spec2Isabelle
  imports Complex_Main
begin

section \<open>Python values used by the schedulers\<close>

text \<open>
  The schedulers of \<^verbatim>\<open>flair/training_utils.py\<close> and \<^verbatim>\<open>flair/optim.py\<close> are
  embedded as state-passing functions. An exception is a value \<open>Inl e\<close>; a call that
  raises aborts the run it belongs to.

  Numbers. A metric is a Python float, compared but never computed with: it is a
  \<open>pyfloat\<close>, with both infinities and NaN, whose comparisons are those of IEEE 754
  (every comparison with NaN is false). Learning rates, factors, floors and \<open>eps\<close> are
  computed with; they are modelled as finite values of type \<open>real\<close> with exact
  arithmetic, so rounding is not part of the model. Counters are Python integers, hence
  \<open>int\<close>.
\<close>

datatype error =
  ValueError | TypeError | IndexError | ZeroDivisionError | OverflowError | ComplexResult

datatype pyfloat = Fin real | PInf | NInf | NaN

fun flt_lt :: "pyfloat \<Rightarrow> pyfloat \<Rightarrow> bool" where
  "flt_lt (Fin a) (Fin b) = (a < b)"
| "flt_lt (Fin a) PInf = True"
| "flt_lt NInf (Fin b) = True"
| "flt_lt NInf PInf = True"
| "flt_lt _ _ = False"

definition flt_gt :: "pyfloat \<Rightarrow> pyfloat \<Rightarrow> bool" where
  "flt_gt a b = flt_lt b a"

fun flt_eq :: "pyfloat \<Rightarrow> pyfloat \<Rightarrow> bool" where
  "flt_eq (Fin a) (Fin b) = (a = b)"
| "flt_eq PInf PInf = True"
| "flt_eq NInf NInf = True"
| "flt_eq _ _ = False"

text \<open>
  An argument of \<open>step\<close> is untyped in the source. \<open>PyNone\<close> is \<^verbatim>\<open>None\<close>,
  \<open>PyNum x\<close> is any object that \<^verbatim>\<open>float()\<close> accepts and that compares like the float
  \<open>x\<close> (a float, an int, a zero-dimensional tensor), and \<open>PyObj t\<close> is any other
  object, of which only the truth value \<open>t\<close> matters. \<^verbatim>\<open>float()\<close> rejects such an
  object with a TypeError or, for a string, a ValueError; the model has one error for
  both.
\<close>

datatype pyval = PyNone | PyNum pyfloat | PyObj bool

fun py_float :: "pyval \<Rightarrow> error + pyfloat" where
  "py_float (PyNum x) = Inr x"
| "py_float PyNone = Inl TypeError"
| "py_float (PyObj t) = Inl TypeError"

fun truthy :: "pyval \<Rightarrow> bool" where
  "truthy PyNone = False"
| "truthy (PyNum x) = (\<not> flt_eq x (Fin 0))"
| "truthy (PyObj t) = t"

text \<open>\<^verbatim>\<open>x < v\<close> and \<^verbatim>\<open>x > v\<close> for a float \<open>x\<close>: a TypeError unless \<open>v\<close> is a number.\<close>

fun py_lt :: "pyfloat \<Rightarrow> pyval \<Rightarrow> error + bool" where
  "py_lt x (PyNum y) = Inr (flt_lt x y)"
| "py_lt x PyNone = Inl TypeError"
| "py_lt x (PyObj t) = Inl TypeError"

fun py_gt :: "pyfloat \<Rightarrow> pyval \<Rightarrow> error + bool" where
  "py_gt x (PyNum y) = Inr (flt_gt x y)"
| "py_gt x PyNone = Inl TypeError"
| "py_gt x (PyObj t) = Inl TypeError"

text \<open>Python's two-argument \<^verbatim>\<open>max(a, b)\<close> keeps \<open>a\<close> unless \<open>b\<close> is greater.\<close>

definition py_max :: "real \<Rightarrow> real \<Rightarrow> real" where
  "py_max a b = (if b > a then b else a)"

section \<open>Parameter groups\<close>

text \<open>
  A parameter group of the optimizer is a dictionary; the schedulers read and write its
  keys \<^verbatim>\<open>"lr"\<close> and \<^verbatim>\<open>"weight_decay"\<close> only.
\<close>

record param_group =
  lr :: real
  weight_decay :: real

section \<open>AnnealOnPlateau (training_utils.py)\<close>

text \<open>
  The attributes of the scheduler object. \<open>sched_dict\<close> holds every attribute but
  \<^verbatim>\<open>optimizer\<close>: it is what \<^verbatim>\<open>state_dict\<close> returns. \<^verbatim>\<open>_last_lr\<close> is set by
  \<^verbatim>\<open>step\<close> only, so it is absent (\<open>None\<close>) on an object that has not stepped.
  The optimizer is represented by its list of parameter groups.
\<close>

record sched_dict =
  factor :: real
  min_lrs :: "real list"
  default_patience :: int
  effective_patience :: int
  verbose :: bool
  cooldown :: int
  cooldown_counter :: int
  mode :: string
  aux_mode :: string
  best :: pyfloat
  best_aux :: pyval
  num_bad_epochs :: int
  mode_worse :: pyfloat
  eps :: real
  last_epoch :: int
  last_lr :: "real list option"

record AnnealOnPlateau = sched_dict +
  optimizer :: "param_group list"

subsection \<open>Construction\<close>

datatype optimizer_arg = Optimizer "param_group list" | NotOptimizer

datatype min_lr_arg = MinScalar real | MinList "real list"

definition init_min_lrs :: "min_lr_arg \<Rightarrow> nat \<Rightarrow> error + real list" where
  "init_min_lrs min_lr n =
     (case min_lr of
        MinList ms \<Rightarrow> if length ms \<noteq> n then Inl ValueError else Inr ms
      | MinScalar m \<Rightarrow> Inr (replicate n m))"

definition init_is_better :: "AnnealOnPlateau \<Rightarrow> string \<Rightarrow> error + AnnealOnPlateau" where
  "init_is_better c md =
     (if md \<noteq> ''min'' \<and> md \<noteq> ''max'' then Inl ValueError
      else Inr (c\<lparr>mode_worse := (if md = ''min'' then PInf else NInf), mode := md\<rparr>))"

definition reset :: "AnnealOnPlateau \<Rightarrow> AnnealOnPlateau" where
  "reset c = c\<lparr>best := mode_worse c, cooldown_counter := 0, num_bad_epochs := 0\<rparr>"

text \<open>
  \<^verbatim>\<open>__init__\<close>, with its checks in the order of the source. The attributes that
  the source sets to \<^verbatim>\<open>None\<close> before \<^verbatim>\<open>_init_is_better\<close> and \<^verbatim>\<open>_reset\<close>
  overwrite them (\<open>best\<close>, \<open>mode_worse\<close>, \<open>num_bad_epochs\<close>) start here at a
  placeholder that is overwritten in the same way.
\<close>

definition AnnealOnPlateau_init ::
  "optimizer_arg \<Rightarrow> string \<Rightarrow> string \<Rightarrow> real \<Rightarrow> int \<Rightarrow> int \<Rightarrow> bool \<Rightarrow> int \<Rightarrow> min_lr_arg \<Rightarrow> real
     \<Rightarrow> error + AnnealOnPlateau" where
  "AnnealOnPlateau_init opt md aux_md fct patience initial_extra_patience verb cd min_lr ep =
     (if fct \<ge> 1 then Inl ValueError
      else case opt of
        NotOptimizer \<Rightarrow> Inl TypeError
      | Optimizer groups \<Rightarrow>
          (case init_min_lrs min_lr (length groups) of
             Inl e \<Rightarrow> Inl e
           | Inr ms \<Rightarrow>
               (case init_is_better
                   \<lparr> factor = fct, min_lrs = ms, default_patience = patience,
                     effective_patience = patience + initial_extra_patience,
                     verbose = verb, cooldown = cd, cooldown_counter = 0,
                     mode = md, aux_mode = aux_md, best = PInf, best_aux = PyNone,
                     num_bad_epochs = 0, mode_worse = PInf, eps = ep, last_epoch = 0,
                     last_lr = None, optimizer = groups \<rparr> md of
                  Inl e \<Rightarrow> Inl e
                | Inr c \<Rightarrow> Inr (reset c))))"

subsection \<open>The step\<close>

definition in_cooldown :: "AnnealOnPlateau \<Rightarrow> bool" where
  "in_cooldown c = (cooldown_counter c > 0)"

text \<open>The two mode tests on the primary metric.\<close>

definition primary_better :: "AnnealOnPlateau \<Rightarrow> pyfloat \<Rightarrow> bool" where
  "primary_better c current =
     ((mode c = ''min'' \<and> flt_lt current (best c)) \<or>
      (mode c = ''max'' \<and> flt_gt current (best c)))"

text \<open>The two mode tests on the auxiliary metric, against the stored \<open>best_aux\<close>.\<close>

definition aux_better :: "AnnealOnPlateau \<Rightarrow> pyfloat \<Rightarrow> error + bool" where
  "aux_better c current_aux =
     (if aux_mode c = ''min'' then py_lt current_aux (best_aux c)
      else if aux_mode c = ''max'' then py_gt current_aux (best_aux c)
      else Inr False)"

text \<open>
  The value of \<^verbatim>\<open>is_better\<close> when the source reaches \<^verbatim>\<open>if is_better:\<close>. The
  auxiliary metric is converted and compared only on an exact tie of the primary metric
  with \<open>best\<close> and only when it is truthy.
\<close>

definition is_better :: "AnnealOnPlateau \<Rightarrow> pyfloat \<Rightarrow> pyval \<Rightarrow> error + bool" where
  "is_better c current auxiliary_metric =
     (if flt_eq current (best c) \<and> truthy auxiliary_metric then
        (case py_float auxiliary_metric of
           Inl e \<Rightarrow> Inl e
         | Inr current_aux \<Rightarrow>
             (case aux_better c current_aux of
                Inl e \<Rightarrow> Inl e
              | Inr b \<Rightarrow> Inr (primary_better c current \<or> b)))
      else Inr (primary_better c current))"

definition record_round :: "AnnealOnPlateau \<Rightarrow> pyfloat \<Rightarrow> pyval \<Rightarrow> bool \<Rightarrow> AnnealOnPlateau" where
  "record_round c current auxiliary_metric better =
     (if better then
        c\<lparr>best := current,
          best_aux := (if truthy auxiliary_metric then auxiliary_metric else best_aux c),
          num_bad_epochs := 0\<rparr>
      else c\<lparr>num_bad_epochs := num_bad_epochs c + 1\<rparr>)"

definition cooldown_round :: "AnnealOnPlateau \<Rightarrow> AnnealOnPlateau" where
  "cooldown_round c =
     (if in_cooldown c then c\<lparr>cooldown_counter := cooldown_counter c - 1, num_bad_epochs := 0\<rparr>
      else c)"

text \<open>
  \<^verbatim>\<open>_reduce_lr\<close>: the loop over \<^verbatim>\<open>enumerate(param_groups)\<close> reads
  \<^verbatim>\<open>min_lrs[i]\<close> for the \<open>i\<close>-th group, so the two lists are walked together, and a
  group beyond the end of \<open>min_lrs\<close> is an IndexError.
\<close>

definition reduce_group :: "real \<Rightarrow> real \<Rightarrow> real \<Rightarrow> param_group \<Rightarrow> param_group" where
  "reduce_group fct ep min_lr g =
     (let old_lr = lr g; new_lr = py_max (old_lr * fct) min_lr
      in if old_lr - new_lr > ep then g\<lparr>lr := new_lr\<rparr> else g)"

fun reduce_groups :: "real \<Rightarrow> real \<Rightarrow> real list \<Rightarrow> param_group list \<Rightarrow> error + param_group list" where
  "reduce_groups fct ep ms [] = Inr []"
| "reduce_groups fct ep [] (g # gs) = Inl IndexError"
| "reduce_groups fct ep (m # ms) (g # gs) =
     (case reduce_groups fct ep ms gs of
        Inl e \<Rightarrow> Inl e
      | Inr gs' \<Rightarrow> Inr (reduce_group fct ep m g # gs'))"

definition reduce_lr :: "AnnealOnPlateau \<Rightarrow> error + AnnealOnPlateau" where
  "reduce_lr c =
     (case reduce_groups (factor c) (eps c) (min_lrs c) (optimizer c) of
        Inl e \<Rightarrow> Inl e
      | Inr gs \<Rightarrow> Inr (c\<lparr>optimizer := gs\<rparr>))"

definition reduce_round :: "AnnealOnPlateau \<Rightarrow> error + (bool \<times> AnnealOnPlateau)" where
  "reduce_round c =
     (if num_bad_epochs c > effective_patience c then
        (case reduce_lr c of
           Inl e \<Rightarrow> Inl e
         | Inr c' \<Rightarrow>
             Inr (True, c'\<lparr>cooldown_counter := cooldown c', num_bad_epochs := 0,
                           effective_patience := default_patience c'\<rparr>))
      else Inr (False, c))"

definition step :: "AnnealOnPlateau \<Rightarrow> pyval \<Rightarrow> pyval \<Rightarrow> error + (bool \<times> AnnealOnPlateau)" where
  "step c metric auxiliary_metric =
     (case py_float metric of
        Inl e \<Rightarrow> Inl e
      | Inr current \<Rightarrow>
          (let c1 = c\<lparr>last_epoch := last_epoch c + 1\<rparr> in
           case is_better c1 current auxiliary_metric of
             Inl e \<Rightarrow> Inl e
           | Inr better \<Rightarrow>
               (case reduce_round (cooldown_round (record_round c1 current auxiliary_metric better)) of
                  Inl e \<Rightarrow> Inl e
                | Inr (reduce_learning_rate, c2) \<Rightarrow>
                    Inr (reduce_learning_rate, c2\<lparr>last_lr := Some (map lr (optimizer c2))\<rparr>))))"


text \<open>A training loop: one \<open>step\<close> per round, stopping at the first exception.\<close>

fun run :: "AnnealOnPlateau \<Rightarrow> (pyval \<times> pyval) list \<Rightarrow> error + (bool list \<times> AnnealOnPlateau)" where
  "run c [] = Inr ([], c)"
| "run c ((m, a) # rest) =
     (case step c m a of
        Inl e \<Rightarrow> Inl e
      | Inr (r, c') \<Rightarrow>
          (case run c' rest of
             Inl e \<Rightarrow> Inl e
           | Inr (rs, c'') \<Rightarrow> Inr (r # rs, c'')))"

text \<open>
  What a training loop observes of a run: the exception, or else the list of results and
  the parameter groups at the end.
\<close>

definition observed ::
  "error + (bool list \<times> AnnealOnPlateau) \<Rightarrow> error + (bool list \<times> param_group list)" where
  "observed res = map_sum id (apsnd optimizer) res"

subsection \<open>Checkpointing\<close>

text \<open>
  \<^verbatim>\<open>state_dict\<close> is the object's \<^verbatim>\<open>__dict__\<close> without the key \<^verbatim>\<open>optimizer\<close>.
  \<^verbatim>\<open>load_state_dict\<close> updates \<^verbatim>\<open>__dict__\<close> with the given dictionary, which leaves
  the optimizer as it is, and an own \<^verbatim>\<open>_last_lr\<close> as it is when the dictionary has
  none; then it calls \<^verbatim>\<open>_init_is_better\<close>.
\<close>

definition state_dict :: "AnnealOnPlateau \<Rightarrow> sched_dict" where
  "state_dict c = sched_dict.truncate c"

definition load_state_dict :: "AnnealOnPlateau \<Rightarrow> sched_dict \<Rightarrow> error + AnnealOnPlateau" where
  "load_state_dict c sd =
     (let c' = sched_dict.extend
                 (sd\<lparr>last_lr := (case last_lr sd of None \<Rightarrow> last_lr c | Some l \<Rightarrow> Some l)\<rparr>)
                 (sched_dict.more c)
      in init_is_better c' (mode c'))"

section \<open>ReduceLRWDOnPlateau (optim.py)\<close>

text \<open>
  The class extends \<^verbatim>\<open>torch.optim.lr_scheduler.ReduceLROnPlateau\<close>, a library class whose
  code is not in the repository. The attributes that the two methods of the subclass
  and the three inherited members they call read and write are the fields below; the
  constructor is inherited, so every field is free. The metric is stored in \<open>wd_best\<close>
  as it was given (\<^verbatim>\<open>self.best = current\<close>, without a conversion).
\<close>

record ReduceLRWDOnPlateau =
  wd_mode :: string
  wd_threshold :: real
  wd_threshold_mode :: string
  wd_factor :: real
  wd_min_lrs :: "real list"
  wd_patience :: int
  wd_cooldown :: int
  wd_cooldown_counter :: int
  wd_best :: pyval
  wd_num_bad_epochs :: int
  wd_eps :: real
  wd_last_epoch :: int
  wd_optimizer :: "param_group list"

text \<open>What a Python call hands back: \<^verbatim>\<open>None\<close> or a boolean.\<close>

datatype py_result = ReturnsNone | ReturnsBool bool

text \<open>A float times, and a float plus, a finite number: infinities and NaN as in IEEE 754.\<close>

fun flt_scale :: "pyfloat \<Rightarrow> real \<Rightarrow> pyfloat" where
  "flt_scale (Fin a) k = Fin (a * k)"
| "flt_scale PInf k = (if k > 0 then PInf else if k < 0 then NInf else NaN)"
| "flt_scale NInf k = (if k > 0 then NInf else if k < 0 then PInf else NaN)"
| "flt_scale NaN k = NaN"

fun flt_shift :: "pyfloat \<Rightarrow> real \<Rightarrow> pyfloat" where
  "flt_shift (Fin a) k = Fin (a + k)"
| "flt_shift PInf k = PInf"
| "flt_shift NInf k = NInf"
| "flt_shift NaN k = NaN"

text \<open>
  Modelled from the spec: the inherited \<^verbatim>\<open>is_better(a, best)\<close>, which is library code.
  The spec (section 4.1, step 3) compares strictly, \<open>a < best\<close> in \<open>min\<close> mode and
  \<open>a > best\<close> in \<open>max\<close> mode; the docstring of the class (optim.py, lines 222 to 228)
  moves the bound by the threshold: in \<open>rel\<close> mode it is \<open>best * (1 - threshold)\<close> in
  \<open>min\<close> mode and \<open>best * (1 + threshold)\<close> in \<open>max\<close> mode, in \<open>abs\<close> mode
  \<open>best - threshold\<close> and \<open>best + threshold\<close>. With threshold 0 it is the strict
  comparison of the spec. A metric or a \<open>best\<close> that is not a number is a TypeError.
\<close>

definition torch_is_better :: "ReduceLRWDOnPlateau \<Rightarrow> pyval \<Rightarrow> pyval \<Rightarrow> error + bool" where
  "torch_is_better s a b =
     (case a of
        PyNum x \<Rightarrow>
          (case b of
             PyNum y \<Rightarrow>
               Inr (if wd_mode s = ''min'' \<and> wd_threshold_mode s = ''rel''
                      then flt_lt x (flt_scale y (1 - wd_threshold s))
                    else if wd_mode s = ''min'' \<and> wd_threshold_mode s = ''abs''
                      then flt_lt x (flt_shift y (- wd_threshold s))
                    else if wd_mode s = ''max'' \<and> wd_threshold_mode s = ''rel''
                      then flt_gt x (flt_scale y (wd_threshold s + 1))
                    else flt_gt x (flt_shift y (wd_threshold s)))
           | _ \<Rightarrow> Inl TypeError)
      | _ \<Rightarrow> Inl TypeError)"

text \<open>
  Modelled from the spec: the inherited property \<^verbatim>\<open>in_cooldown\<close>, which is library
  code. The spec (section 4.1, step 7): in cooldown means \<open>cooldown_remaining > 0\<close>.
\<close>

definition torch_in_cooldown :: "ReduceLRWDOnPlateau \<Rightarrow> bool" where
  "torch_in_cooldown s = (wd_cooldown_counter s > 0)"

text \<open>
  Modelled from the spec: the inherited \<^verbatim>\<open>_reduce_lr(epoch)\<close>, which is library code.
  The spec (section 4.1, step 9): for every parameter group
  \<open>new_lr = max (old_lr * factor) min_value_for_group\<close>, applied only if
  \<open>old_lr - new_lr > eps\<close>. This is the rule of \<open>reduce_groups\<close> above, the copy of the
  method that the repository has in \<^verbatim>\<open>AnnealOnPlateau._reduce_lr\<close>.
\<close>

definition torch_reduce_lr :: "ReduceLRWDOnPlateau \<Rightarrow> int \<Rightarrow> error + ReduceLRWDOnPlateau" where
  "torch_reduce_lr s epoch =
     (case reduce_groups (wd_factor s) (wd_eps s) (wd_min_lrs s) (wd_optimizer s) of
        Inl e \<Rightarrow> Inl e
      | Inr gs \<Rightarrow> Inr (s\<lparr>wd_optimizer := gs\<rparr>))"

definition reduce_wd_group :: "real \<Rightarrow> real \<Rightarrow> real \<Rightarrow> param_group \<Rightarrow> param_group" where
  "reduce_wd_group fct ep min_lr g =
     (let old_weight_decay = weight_decay g;
          new_weight_decay = py_max (old_weight_decay * fct) min_lr
      in if old_weight_decay - new_weight_decay > ep
         then g\<lparr>weight_decay := new_weight_decay\<rparr> else g)"

text \<open>
  \<^verbatim>\<open>_reduce_weight_decay\<close>: the index \<open>i\<close> advances with every group, and
  \<^verbatim>\<open>min_lrs[i]\<close> is read only for a group whose weight decay is not zero.
\<close>

fun reduce_wd_groups :: "real \<Rightarrow> real \<Rightarrow> real list \<Rightarrow> param_group list \<Rightarrow> error + param_group list" where
  "reduce_wd_groups fct ep ms [] = Inr []"
| "reduce_wd_groups fct ep ms (g # gs) =
     (if weight_decay g \<noteq> 0 then
        (case ms of
           [] \<Rightarrow> Inl IndexError
         | m # ms' \<Rightarrow>
             (case reduce_wd_groups fct ep ms' gs of
                Inl e \<Rightarrow> Inl e
              | Inr gs' \<Rightarrow> Inr (reduce_wd_group fct ep m g # gs')))
      else
        (case reduce_wd_groups fct ep (tl ms) gs of
           Inl e \<Rightarrow> Inl e
         | Inr gs' \<Rightarrow> Inr (g # gs')))"

definition reduce_weight_decay :: "ReduceLRWDOnPlateau \<Rightarrow> error + ReduceLRWDOnPlateau" where
  "reduce_weight_decay s =
     (case reduce_wd_groups (wd_factor s) (wd_eps s) (wd_min_lrs s) (wd_optimizer s) of
        Inl e \<Rightarrow> Inl e
      | Inr gs \<Rightarrow> Inr (s\<lparr>wd_optimizer := gs\<rparr>))"

text \<open>
  \<^verbatim>\<open>step(metrics, epoch=None)\<close>, with the three inherited members as arguments. The
  method has no \<^verbatim>\<open>return\<close> statement, so a call that completes hands back
  \<^verbatim>\<open>None\<close>.
\<close>

definition wd_record_round ::
  "(ReduceLRWDOnPlateau \<Rightarrow> pyval \<Rightarrow> pyval \<Rightarrow> error + bool) \<Rightarrow> ReduceLRWDOnPlateau \<Rightarrow> pyval
     \<Rightarrow> error + ReduceLRWDOnPlateau" where
  "wd_record_round is_better_base s current =
     (case is_better_base s current (wd_best s) of
        Inl e \<Rightarrow> Inl e
      | Inr better \<Rightarrow>
          Inr (if better then s\<lparr>wd_best := current, wd_num_bad_epochs := 0\<rparr>
               else s\<lparr>wd_num_bad_epochs := wd_num_bad_epochs s + 1\<rparr>))"

definition wd_cooldown_round ::
  "(ReduceLRWDOnPlateau \<Rightarrow> bool) \<Rightarrow> ReduceLRWDOnPlateau \<Rightarrow> ReduceLRWDOnPlateau" where
  "wd_cooldown_round in_cooldown_base s =
     (if in_cooldown_base s
      then s\<lparr>wd_cooldown_counter := wd_cooldown_counter s - 1, wd_num_bad_epochs := 0\<rparr>
      else s)"

definition wd_step ::
  "(ReduceLRWDOnPlateau \<Rightarrow> pyval \<Rightarrow> pyval \<Rightarrow> error + bool) \<Rightarrow> (ReduceLRWDOnPlateau \<Rightarrow> bool) \<Rightarrow>
   (ReduceLRWDOnPlateau \<Rightarrow> int \<Rightarrow> error + ReduceLRWDOnPlateau) \<Rightarrow>
   ReduceLRWDOnPlateau \<Rightarrow> pyval \<Rightarrow> int option \<Rightarrow> error + (py_result \<times> ReduceLRWDOnPlateau)" where
  "wd_step is_better_base in_cooldown_base reduce_lr_base s metrics epoch_arg =
     (let current = metrics;
          epoch = (case epoch_arg of None \<Rightarrow> wd_last_epoch s + 1 | Some e \<Rightarrow> e)
      in case wd_record_round is_better_base (s\<lparr>wd_last_epoch := epoch\<rparr>) current of
           Inl e \<Rightarrow> Inl e
         | Inr s0 \<Rightarrow>
             (let s1 = wd_cooldown_round in_cooldown_base s0
              in if wd_num_bad_epochs s1 > wd_patience s1 then
                   (case reduce_lr_base s1 epoch of
                      Inl e \<Rightarrow> Inl e
                    | Inr s2 \<Rightarrow>
                        (case reduce_weight_decay s2 of
                           Inl e \<Rightarrow> Inl e
                         | Inr s3 \<Rightarrow>
                             Inr (ReturnsNone,
                                  s3\<lparr>wd_cooldown_counter := wd_cooldown s3,
                                     wd_num_bad_epochs := 0\<rparr>)))
                 else Inr (ReturnsNone, s1)))"

text \<open>The step of the class: \<open>wd_step\<close> with the inherited members as modelled above.\<close>

definition ReduceLRWDOnPlateau_step ::
  "ReduceLRWDOnPlateau \<Rightarrow> pyval \<Rightarrow> int option \<Rightarrow> error + (py_result \<times> ReduceLRWDOnPlateau)" where
  "ReduceLRWDOnPlateau_step = wd_step torch_is_better torch_in_cooldown torch_reduce_lr"

section \<open>ExpAnnealLR (optim.py)\<close>

text \<open>
  \<^verbatim>\<open>get_lr\<close> computes with Python floats: one true division of integers and, for each
  group, a division, a power and a multiplication. What they round to is the arithmetic
  of the machine, which the model takes as a parameter: \<open>fl_round\<close> gives the float that
  the exact result of a division or a multiplication is rounded to (\<open>PInf\<close> or \<open>NInf\<close>
  when it is out of range, a zero when it underflows), and \<open>fl_pow x y\<close> is what the C
  library's \<^verbatim>\<open>pow\<close> returns for a positive finite base other than 1 and a finite
  exponent other than 0 (\<open>PInf\<close> when it overflows). The end rate and the rates of the
  groups are finite floats, given as the reals they are.
\<close>

record float_arith =
  fl_round :: "real \<Rightarrow> pyfloat"
  fl_pow :: "real \<Rightarrow> real \<Rightarrow> pyfloat"

fun flt_le :: "pyfloat \<Rightarrow> pyfloat \<Rightarrow> bool" where
  "flt_le (Fin a) (Fin b) = (a \<le> b)"
| "flt_le (Fin a) PInf = True"
| "flt_le NInf (Fin b) = True"
| "flt_le NInf PInf = True"
| "flt_le NInf NInf = True"
| "flt_le PInf PInf = True"
| "flt_le _ _ = False"

text \<open>
  \<^verbatim>\<open>i / n\<close> on integers: a ZeroDivisionError for \<open>n = 0\<close>, an OverflowError when the
  quotient is too large for a float, and the rounded quotient otherwise.
\<close>

definition py_int_div :: "float_arith \<Rightarrow> int \<Rightarrow> int \<Rightarrow> error + real" where
  "py_int_div fa i n =
     (if n = 0 then Inl ZeroDivisionError
      else case fl_round fa (of_int i / of_int n) of
        Fin q \<Rightarrow> Inr q
      | _ \<Rightarrow> Inl OverflowError)"

text \<open>\<^verbatim>\<open>a / b\<close> on finite floats: a ZeroDivisionError for \<open>b = 0\<close>.\<close>

definition py_fdiv :: "float_arith \<Rightarrow> real \<Rightarrow> real \<Rightarrow> error + pyfloat" where
  "py_fdiv fa a b = (if b = 0 then Inl ZeroDivisionError else Inr (fl_round fa (a / b)))"

text \<open>\<^verbatim>\<open>a * v\<close> for a finite float \<open>a\<close>: it never raises.\<close>

definition py_fmul :: "float_arith \<Rightarrow> real \<Rightarrow> pyfloat \<Rightarrow> pyfloat" where
  "py_fmul fa a v = (case v of Fin r \<Rightarrow> fl_round fa (a * r) | _ \<Rightarrow> flt_scale v a)"

text \<open>
  \<^verbatim>\<open>v ** w\<close> for a finite exponent \<open>w\<close>, with the special cases that CPython sorts out
  before it calls \<^verbatim>\<open>pow\<close>, in its order: any base to the power 0 is 1; NaN stays; an
  infinite base gives an infinity or a zero; zero to a negative power is a
  ZeroDivisionError; a negative base with a fractional exponent gives a complex number,
  which is outside this model (\<open>ComplexResult\<close>); a base of 1 or -1 gives 1 or -1. In
  every other case \<^verbatim>\<open>pow\<close> is called, and an overflow is an OverflowError.
\<close>

definition py_pow :: "float_arith \<Rightarrow> pyfloat \<Rightarrow> real \<Rightarrow> error + pyfloat" where
  "py_pow fa v w =
     (if w = 0 then Inr (Fin 1)
      else case v of
        NaN \<Rightarrow> Inr NaN
      | PInf \<Rightarrow> Inr (if w > 0 then PInf else Fin 0)
      | NInf \<Rightarrow>
          Inr (if w > 0 then (if w = of_int \<lfloor>w\<rfloor> \<and> odd \<lfloor>w\<rfloor> then NInf else PInf) else Fin 0)
      | Fin x \<Rightarrow>
          if x = 0 then (if w < 0 then Inl ZeroDivisionError else Inr (Fin 0))
          else if x < 0 \<and> w \<noteq> of_int \<lfloor>w\<rfloor> then Inl ComplexResult
          else if \<bar>x\<bar> = 1 then Inr (Fin (if x < 0 \<and> odd \<lfloor>w\<rfloor> then - 1 else 1))
          else (case fl_pow fa \<bar>x\<bar> w of
                  Fin r \<Rightarrow> Inr (Fin (if x < 0 \<and> odd \<lfloor>w\<rfloor> then - r else r))
                | NaN \<Rightarrow> Inr NaN
                | _ \<Rightarrow> Inl OverflowError))"

text \<open>
  The scheduler object: \<^verbatim>\<open>end_lr\<close> and \<^verbatim>\<open>iterations\<close> are set by \<^verbatim>\<open>__init__\<close>;
  \<^verbatim>\<open>last_epoch\<close> and \<^verbatim>\<open>base_lrs\<close> (the rate of each group when the scheduler was
  created) are kept by the library base class \<^verbatim>\<open>_LRScheduler\<close>.
\<close>

record ExpAnnealLR =
  end_lr :: real
  iterations :: int
  exp_last_epoch :: int
  base_lrs :: "real list"

text \<open>The list comprehension of \<^verbatim>\<open>get_lr\<close>, group by group, and \<^verbatim>\<open>get_lr\<close>.\<close>

fun anneal_all :: "float_arith \<Rightarrow> real \<Rightarrow> real \<Rightarrow> real list \<Rightarrow> error + pyfloat list" where
  "anneal_all fa e pct [] = Inr []"
| "anneal_all fa e pct (base_lr # rest) =
     (case py_fdiv fa e base_lr of
        Inl x \<Rightarrow> Inl x
      | Inr ratio \<Rightarrow>
          (case py_pow fa ratio pct of
             Inl x \<Rightarrow> Inl x
           | Inr p \<Rightarrow>
               (case anneal_all fa e pct rest of
                  Inl x \<Rightarrow> Inl x
                | Inr vs \<Rightarrow> Inr (py_fmul fa base_lr p # vs))))"

definition get_lr :: "float_arith \<Rightarrow> ExpAnnealLR \<Rightarrow> error + pyfloat list" where
  "get_lr fa s =
     (let iteration = exp_last_epoch s + 1 in
      case py_int_div fa iteration (iterations s) of
        Inl x \<Rightarrow> Inl x
      | Inr pct \<Rightarrow> anneal_all fa (end_lr s) pct (base_lrs s))"

text \<open>
  The schedule in the words of the spec, for one group: at step \<open>k\<close> the rate is
  \<open>start_lr * (end_lr / start_lr) ^ (k / total_steps)\<close>, in the same arithmetic.
\<close>

definition spec_rate :: "float_arith \<Rightarrow> real \<Rightarrow> real \<Rightarrow> int \<Rightarrow> int \<Rightarrow> error + pyfloat" where
  "spec_rate fa start_lr e k total_steps =
     (case py_fdiv fa e start_lr of
        Inl x \<Rightarrow> Inl x
      | Inr ratio \<Rightarrow>
          (case py_int_div fa k total_steps of
             Inl x \<Rightarrow> Inl x
           | Inr q \<Rightarrow>
               (case py_pow fa ratio q of
                  Inl x \<Rightarrow> Inl x
                | Inr p \<Rightarrow> Inr (py_fmul fa start_lr p))))"

text \<open>
  What the proofs below use of the arithmetic: rounding is monotone and exact on 0 and
  on 1; \<^verbatim>\<open>pow\<close> of a positive base is not negative, is 1 for the exponent 0, gives a
  float back for the exponent 1, and for a base between 0 and 1 does not grow with the
  exponent. Rounding to nearest has the first property; the others are what a \<^verbatim>\<open>pow\<close>
  that rounds the exact power monotonically has.
\<close>

definition sound_arith :: "float_arith \<Rightarrow> bool" where
  "sound_arith fa \<longleftrightarrow>
     (\<forall>x y. x \<le> y \<longrightarrow> flt_le (fl_round fa x) (fl_round fa y)) \<and>
     fl_round fa 0 = Fin 0 \<and> fl_round fa 1 = Fin 1 \<and>
     (\<forall>x y. 0 < x \<longrightarrow> flt_le (Fin 0) (fl_pow fa x y)) \<and>
     (\<forall>x. 0 < x \<longrightarrow> fl_pow fa x 0 = Fin 1) \<and>
     (\<forall>x. 0 < x \<and> fl_round fa x = Fin x \<longrightarrow> fl_pow fa x 1 = Fin x) \<and>
     (\<forall>x y y'. 0 < x \<and> x < 1 \<and> y \<le> y' \<longrightarrow> flt_le (fl_pow fa x y') (fl_pow fa x y))"

text \<open>
  Two arithmetics: the exact one, which rounds nothing, and a coarse one, which rounds
  down to thousandths and overflows beyond 1000.
\<close>

definition exact_arith :: float_arith where
  "exact_arith = \<lparr> fl_round = Fin, fl_pow = (\<lambda>x y. Fin (x powr y)) \<rparr>"

definition coarse_round :: "real \<Rightarrow> pyfloat" where
  "coarse_round x =
     (if x > 1000 then PInf else if x < - 1000 then NInf
      else Fin (of_int \<lfloor>x * 1000\<rfloor> / 1000))"

definition coarse_arith :: float_arith where
  "coarse_arith = \<lparr> fl_round = coarse_round, fl_pow = (\<lambda>x y. coarse_round (x powr y)) \<rparr>"

section \<open>Example states\<close>

text \<open>
  The scheduler built by
  \<^verbatim>\<open>AnnealOnPlateau(opt, mode="min", factor=0.5, patience=1, initial_extra_patience=1, cooldown=2)\<close>
  on an optimizer with one parameter group of learning rate 1, and the same scheduler
  after a first round with metric 1.0, which sets \<open>best\<close>.
\<close>

definition example_fresh :: AnnealOnPlateau where
  "example_fresh =
     \<lparr> factor = 1/2, min_lrs = [0], default_patience = 1, effective_patience = 2,
       verbose = False, cooldown = 2, cooldown_counter = 0, mode = ''min'',
       aux_mode = ''min'', best = PInf, best_aux = PyNone, num_bad_epochs = 0,
       mode_worse = PInf, eps = 1/100000000, last_epoch = 0, last_lr = None,
       optimizer = [\<lparr>lr = 1, weight_decay = 0\<rparr>] \<rparr>"

definition example_started :: AnnealOnPlateau where
  "example_started = example_fresh\<lparr>best := Fin 1, last_epoch := 1, last_lr := Some [1]\<rparr>"

text \<open>
  The same scheduler after two more rounds with metric 1.0 (two bad rounds), after the
  fourth such round, which reduces the learning rate and starts the cooldown, and after
  a fifth one, spent in cooldown.
\<close>

definition example_plateau :: AnnealOnPlateau where
  "example_plateau = example_started\<lparr>num_bad_epochs := 2, last_epoch := 3\<rparr>"

definition example_reduced :: AnnealOnPlateau where
  "example_reduced =
     example_fresh\<lparr>effective_patience := 1, cooldown_counter := 2, best := Fin 1,
       last_epoch := 4, last_lr := Some [1/2],
       optimizer := [\<lparr>lr = 1/2, weight_decay = 0\<rparr>]\<rparr>"

definition example_cooling :: AnnealOnPlateau where
  "example_cooling = example_reduced\<lparr>cooldown_counter := 1, last_epoch := 5\<rparr>"

text \<open>
  The fresh scheduler after a first round with metric 1.0 and auxiliary metric 1.0, which
  sets \<open>best\<close> and \<open>best_aux\<close>.
\<close>

definition example_tied :: AnnealOnPlateau where
  "example_tied = example_started\<lparr>best_aux := PyNum (Fin 1)\<rparr>"

text \<open>
  The scheduler built by
  \<^verbatim>\<open>AnnealOnPlateau(opt, mode="min", factor=0.1, patience=0, min_lr=0.5, eps=-1.0)\<close>
  on an optimizer with one parameter group of learning rate 0.1, and the same scheduler
  after two rounds with metric 1.0.
\<close>

definition example_negative_eps :: AnnealOnPlateau where
  "example_negative_eps =
     \<lparr> factor = 1/10, min_lrs = [1/2], default_patience = 0, effective_patience = 0,
       verbose = False, cooldown = 0, cooldown_counter = 0, mode = ''min'',
       aux_mode = ''min'', best = PInf, best_aux = PyNone, num_bad_epochs = 0,
       mode_worse = PInf, eps = - 1, last_epoch = 0, last_lr = None,
       optimizer = [\<lparr>lr = 1/10, weight_decay = 0\<rparr>] \<rparr>"

definition example_raised :: AnnealOnPlateau where
  "example_raised =
     example_negative_eps\<lparr>best := Fin 1, last_epoch := 2, last_lr := Some [1/2],
       optimizer := [\<lparr>lr = 1/2, weight_decay = 0\<rparr>]\<rparr>"

text \<open>
  A \<^verbatim>\<open>ReduceLRWDOnPlateau\<close> in \<open>min\<close> mode with the default threshold \<open>1e-4\<close> (relative),
  patience 0 and factor 0.5, whose best metric is 1.0, on one parameter group with
  learning rate 1 and weight decay 1; and the same scheduler after one more round that
  reduces both. The \<^verbatim>\<open>AnnealOnPlateau\<close> that stands at the same point: patience 0, factor
  0.5, best metric 1.0 (and best auxiliary metric 1.0), learning rate 1.
\<close>

definition example_wd :: ReduceLRWDOnPlateau where
  "example_wd =
     \<lparr> wd_mode = ''min'', wd_threshold = 1/10000, wd_threshold_mode = ''rel'',
       wd_factor = 1/2, wd_min_lrs = [0], wd_patience = 0, wd_cooldown = 0,
       wd_cooldown_counter = 0, wd_best = PyNum (Fin 1), wd_num_bad_epochs = 0,
       wd_eps = 1/100000000, wd_last_epoch = 1,
       wd_optimizer = [\<lparr>lr = 1, weight_decay = 1\<rparr>] \<rparr>"

definition example_wd_reduced :: ReduceLRWDOnPlateau where
  "example_wd_reduced =
     example_wd\<lparr>wd_last_epoch := 2, wd_optimizer := [\<lparr>lr = 1/2, weight_decay = 1/2\<rparr>]\<rparr>"

definition example_keen :: AnnealOnPlateau where
  "example_keen =
     \<lparr> factor = 1/2, min_lrs = [0], default_patience = 0, effective_patience = 0,
       verbose = False, cooldown = 0, cooldown_counter = 0, mode = ''min'',
       aux_mode = ''min'', best = Fin 1, best_aux = PyNum (Fin 1), num_bad_epochs = 0,
       mode_worse = PInf, eps = 1/100000000, last_epoch = 1, last_lr = Some [1],
       optimizer = [\<lparr>lr = 1, weight_decay = 1\<rparr>] \<rparr>"

text \<open>
  A \<^verbatim>\<open>ReduceLRWDOnPlateau\<close> with a negative \<open>eps\<close> and a floor of 0.5, on one parameter
  group with learning rate 1 and weight decay 0, and the same after one more round.
\<close>

definition example_wd_zero :: ReduceLRWDOnPlateau where
  "example_wd_zero =
     example_wd\<lparr>wd_min_lrs := [1/2], wd_eps := - 1,
       wd_optimizer := [\<lparr>lr = 1, weight_decay = 0\<rparr>]\<rparr>"

definition example_wd_zero_reduced :: ReduceLRWDOnPlateau where
  "example_wd_zero_reduced =
     example_wd_zero\<lparr>wd_last_epoch := 2, wd_optimizer := [\<lparr>lr = 1/2, weight_decay = 0\<rparr>]\<rparr>"

text \<open>
  The first \<^verbatim>\<open>ReduceLRWDOnPlateau\<close> with threshold 0, and the \<^verbatim>\<open>AnnealOnPlateau\<close> after one
  more round that reduces.
\<close>

definition example_wd_plain :: ReduceLRWDOnPlateau where
  "example_wd_plain = example_wd\<lparr>wd_threshold := 0\<rparr>"

definition example_keen_reduced :: AnnealOnPlateau where
  "example_keen_reduced =
     example_keen\<lparr>last_epoch := 2, last_lr := Some [1/2],
       optimizer := [\<lparr>lr = 1/2, weight_decay = 1\<rparr>]\<rparr>"

text \<open>
  The scheduler built by
  \<^verbatim>\<open>AnnealOnPlateau(opt, mode="min", factor=0.5, patience=-1, cooldown=2)\<close> on an
  optimizer with one parameter group of learning rate 1, and the same scheduler after one
  and after two rounds with metric 1.0.
\<close>

definition example_impatient :: AnnealOnPlateau where
  "example_impatient =
     \<lparr> factor = 1/2, min_lrs = [0], default_patience = - 1, effective_patience = - 1,
       verbose = False, cooldown = 2, cooldown_counter = 0, mode = ''min'',
       aux_mode = ''min'', best = PInf, best_aux = PyNone, num_bad_epochs = 0,
       mode_worse = PInf, eps = 1/100000000, last_epoch = 0, last_lr = None,
       optimizer = [\<lparr>lr = 1, weight_decay = 0\<rparr>] \<rparr>"

definition example_impatient_once :: AnnealOnPlateau where
  "example_impatient_once =
     example_impatient\<lparr>cooldown_counter := 2, best := Fin 1, last_epoch := 1,
       last_lr := Some [1/2], optimizer := [\<lparr>lr = 1/2, weight_decay = 0\<rparr>]\<rparr>"

definition example_impatient_twice :: AnnealOnPlateau where
  "example_impatient_twice =
     example_impatient_once\<lparr>last_epoch := 2,
       last_lr := Some [1/4], optimizer := [\<lparr>lr = 1/4, weight_decay = 0\<rparr>]\<rparr>"




text \<open>A round with primary metric \<open>x\<close> and no auxiliary metric.\<close>

definition round_of :: "real \<Rightarrow> pyval \<times> pyval" where
  "round_of x = (PyNum (Fin x), PyNone)"

section \<open>Basic facts about a step\<close>

lemmas step_eval = step_def is_better_def primary_better_def aux_better_def record_round_def
  cooldown_round_def in_cooldown_def reduce_round_def reduce_lr_def reduce_group_def
  py_max_def flt_gt_def round_of_def

lemma example_fresh_init:
  "AnnealOnPlateau_init (Optimizer [\<lparr>lr = 1, weight_decay = 0\<rparr>]) ''min'' ''min'' (1/2) 1 1
       False 2 (MinScalar 0) (1/100000000) = Inr example_fresh"
  by (simp add: AnnealOnPlateau_init_def init_min_lrs_def init_is_better_def reset_def
      example_fresh_def)

lemma example_started_step:
  "step example_fresh (PyNum (Fin 1)) PyNone = Inr (False, example_started)"
  by (simp add: example_started_def example_fresh_def step_eval)

text \<open>The comparison of a round reads \<open>mode\<close>, \<open>aux_mode\<close>, \<open>best\<close> and \<open>best_aux\<close> only.\<close>

lemma is_better_fields:
  assumes "mode c = mode d" "aux_mode c = aux_mode d" "best c = best d" "best_aux c = best_aux d"
  shows "is_better c current a = is_better d current a"
proof -
  have p: "primary_better c current = primary_better d current"
    using assms by (simp add: primary_better_def)
  have x: "\<And>ca. aux_better c ca = aux_better d ca"
    using assms by (simp add: aux_better_def)
  show ?thesis
    unfolding is_better_def p x using assms by simp
qed

lemma is_better_last_epoch [simp]:
  "is_better (c\<lparr>last_epoch := n\<rparr>) current a = is_better c current a"
  by (rule is_better_fields) simp_all

text \<open>A step that returns went through each phase.\<close>

lemma stepE:
  assumes "step c m a = Inr (r, c')"
  obtains current better c2 where
    "py_float m = Inr current"
    "is_better c current a = Inr better"
    "reduce_round (cooldown_round
        (record_round (c\<lparr>last_epoch := last_epoch c + 1\<rparr>) current a better)) = Inr (r, c2)"
    "c' = c2\<lparr>last_lr := Some (map lr (optimizer c2))\<rparr>"
  using assms
  by (auto simp: step_def Let_def split: sum.splits prod.splits)

lemma runE:
  assumes "run c ((m, a) # ms) = Inr (rs, c')"
  obtains r c1 rs1 where
    "step c m a = Inr (r, c1)" "run c1 ms = Inr (rs1, c')" "rs = r # rs1"
  using assms by (auto split: sum.splits prod.splits)

section \<open>Facts about the reduction of the groups\<close>

lemma py_max_max: "py_max a b = max a b"
  by (simp add: py_max_def max_def)

lemma lr_reduce_group:
  "lr (reduce_group f e m g) =
     (let old_lr = lr g; new_lr = max (old_lr * f) m
      in if old_lr - new_lr \<le> e then old_lr else new_lr)"
  by (simp add: reduce_group_def py_max_max Let_def)

lemma weight_decay_reduce_group [simp]:
  "weight_decay (reduce_group f e m g) = weight_decay g"
  by (simp add: reduce_group_def Let_def)

lemma reduce_groups_Inr:
  "length gs \<le> length ms \<Longrightarrow>
     reduce_groups f e ms gs = Inr (map2 (reduce_group f e) ms gs)"
proof (induction gs arbitrary: ms)
  case Nil
  then show ?case by simp
next
  case (Cons g gs)
  then obtain m ms' where "ms = m # ms'" by (cases ms) auto
  with Cons show ?case by simp
qed

lemma reduce_groups_InrD:
  "reduce_groups f e ms gs = Inr gs' \<Longrightarrow>
     length gs \<le> length ms \<and> gs' = map2 (reduce_group f e) ms gs"
proof (induction f e ms gs arbitrary: gs' rule: reduce_groups.induct)
  case (1 fct ep ms)
  then show ?case by simp
next
  case (2 fct ep g gs)
  then show ?case by simp
next
  case (3 fct ep m ms g gs)
  then show ?case by (auto split: sum.splits)
qed

lemma map2_reduce_nth:
  assumes "length gs \<le> length ms" "i < length gs"
  shows "map2 (reduce_group f e) ms gs ! i = reduce_group f e (ms ! i) (gs ! i)"
  using assms by simp

section \<open>The patience in force\<close>

lemma reduce_round_patience:
  assumes "reduce_round c = Inr (r, c')"
  shows "default_patience c' = default_patience c"
    and "effective_patience c' = (if r then default_patience c else effective_patience c)"
  using assms
  by (auto simp: reduce_round_def reduce_lr_def split: if_splits sum.splits)

lemma step_patience:
  assumes "step c m a = Inr (r, c')"
  shows "default_patience c' = default_patience c"
    and "effective_patience c' = (if r then default_patience c else effective_patience c)"
proof -
  from assms obtain current better c2 where
    rr: "reduce_round (cooldown_round
           (record_round (c\<lparr>last_epoch := last_epoch c + 1\<rparr>) current a better)) = Inr (r, c2)"
    and c': "c' = c2\<lparr>last_lr := Some (map lr (optimizer c2))\<rparr>"
    by (rule stepE)
  have pre:
    "default_patience (cooldown_round
        (record_round (c\<lparr>last_epoch := last_epoch c + 1\<rparr>) current a better)) = default_patience c"
    "effective_patience (cooldown_round
        (record_round (c\<lparr>last_epoch := last_epoch c + 1\<rparr>) current a better)) = effective_patience c"
    by (simp_all add: cooldown_round_def record_round_def)
  show "default_patience c' = default_patience c"
    using reduce_round_patience(1)[OF rr] pre c' by simp
  show "effective_patience c' = (if r then default_patience c else effective_patience c)"
    using reduce_round_patience(2)[OF rr] pre c' by simp
qed

lemma run_patience:
  "run c ms = Inr (rs, c') \<Longrightarrow>
     default_patience c' = default_patience c \<and>
     effective_patience c' = (if True \<in> set rs then default_patience c else effective_patience c)"
proof (induction ms arbitrary: c rs)
  case Nil
  then show ?case by simp
next
  case (Cons x ms)
  obtain m a where x: "x = (m, a)" by (cases x)
  from Cons.prems x have "run c ((m, a) # ms) = Inr (rs, c')" by simp
  then obtain r c1 rs1 where
    s: "step c m a = Inr (r, c1)" and rn: "run c1 ms = Inr (rs1, c')" and rs: "rs = r # rs1"
    by (rule runE)
  from Cons.IH[OF rn] step_patience[OF s] rs show ?case by auto
qed

lemma init_patience:
  "AnnealOnPlateau_init opt md aux_md fct patience extra verb cd min_lr ep = Inr c \<Longrightarrow>
     default_patience c = patience \<and> effective_patience c = patience + extra"
  by (auto simp: AnnealOnPlateau_init_def init_is_better_def reset_def
      split: if_splits optimizer_arg.splits sum.splits)

text \<open>
  C4. A scheduler is built with \<open>effective_patience = patience + initial_extra_patience\<close>.
  After any number of rounds, \<open>effective_patience\<close> still has that value if no round has
  reduced the learning rate, and it is \<open>patience\<close> if some round has: once a reduction
  has fired, no later round brings the extra patience back.
\<close>

theorem effective_patience_schedule:
  assumes "AnnealOnPlateau_init opt md aux_md fct patience initial_extra_patience verb cd min_lr ep
             = Inr c0"
    and "run c0 ms = Inr (rs, c)"
  shows "effective_patience c0 = patience + initial_extra_patience \<and>
         effective_patience c = (if True \<in> set rs then patience
                                 else patience + initial_extra_patience)"
  using init_patience[OF assms(1)] run_patience[OF assms(2)] by simp

lemma example_run_four:
  "run example_fresh [round_of 1, round_of 1, round_of 1, round_of 1] =
     Inr ([False, False, False, True], example_reduced)"
  by (simp add: example_fresh_def example_reduced_def step_eval)

theorem effective_patience_schedule_witness:
  "effective_patience example_fresh = 1 + 1 \<and> effective_patience example_reduced = 1"
  using effective_patience_schedule [OF example_fresh_init example_run_four]
  by simp

section \<open>Construction: which arguments are rejected\<close>

text \<open>
  C6 (as amended). \<^verbatim>\<open>__init__\<close> raises exactly when \<open>factor \<ge> 1\<close> (a ValueError), or
  the optimizer argument is not an \<^verbatim>\<open>Optimizer\<close> (a TypeError), or \<open>min_lr\<close> is a list
  whose length differs from the number of parameter groups (a ValueError), or \<open>mode\<close> is
  neither \<open>min\<close> nor \<open>max\<close> (a ValueError); the checks run in this order and the first
  that fails decides the exception. No other argument is checked: a factor that is zero
  or negative, a negative patience and a negative cooldown are accepted.
\<close>

theorem init_raises_iff:
  "(AnnealOnPlateau_init opt md aux_md fct patience initial_extra_patience verb cd min_lr ep
      = Inl ValueError
    \<longleftrightarrow>
    (fct \<ge> 1 \<or>
     (\<exists>gs. opt = Optimizer gs \<and>
        ((\<exists>ms. min_lr = MinList ms \<and> length ms \<noteq> length gs) \<or>
         (md \<noteq> ''min'' \<and> md \<noteq> ''max''))))) \<and>
   (AnnealOnPlateau_init opt md aux_md fct patience initial_extra_patience verb cd min_lr ep
      = Inl TypeError
    \<longleftrightarrow> (fct < 1 \<and> opt = NotOptimizer)) \<and>
   ((\<exists>e. AnnealOnPlateau_init opt md aux_md fct patience initial_extra_patience verb cd min_lr ep
           = Inl e)
    \<longleftrightarrow>
    (fct \<ge> 1 \<or> opt = NotOptimizer \<or>
     (\<exists>ms gs. min_lr = MinList ms \<and> opt = Optimizer gs \<and> length ms \<noteq> length gs) \<or>
     (md \<noteq> ''min'' \<and> md \<noteq> ''max''))) \<and>
   (\<forall>e. AnnealOnPlateau_init opt md aux_md fct patience initial_extra_patience verb cd min_lr ep
           = Inl e
        \<longrightarrow> e = ValueError \<or> e = TypeError)"
  by (auto simp: AnnealOnPlateau_init_def init_min_lrs_def init_is_better_def
      split: optimizer_arg.splits min_lr_arg.splits sum.splits if_splits)

theorem init_raises_iff_witness:
  "AnnealOnPlateau_init (Optimizer [\<lparr>lr = 1, weight_decay = 0\<rparr>]) ''min'' ''min'' (1/10) 10 0
       False 0 (MinList [0, 0]) (1/100000000) = Inl ValueError \<and>
   AnnealOnPlateau_init NotOptimizer ''min'' ''min'' (1/10) 10 0
       False 0 (MinScalar 0) (1/100000000) = Inl TypeError"
  using init_raises_iff [of "Optimizer [\<lparr>lr = 1, weight_decay = 0\<rparr>]" "''min''" "''min''" "1/10" 10 0
      False 0 "MinList [0, 0]" "1/100000000"]
    init_raises_iff [of NotOptimizer "''min''" "''min''" "1/10" 10 0
      False 0 "MinScalar 0" "1/100000000"]
  by simp

text \<open>
  The claim as written fails: a negative factor, a negative patience and a negative
  cooldown together are accepted, and the scheduler is built with them.
\<close>

theorem init_accepts_invalid_counterexample:
  "\<not> (0 < (- (1/2) :: real)) \<and> (- 1 :: int) < 0 \<and> (- 3 :: int) < 0 \<and>
   AnnealOnPlateau_init (Optimizer [\<lparr>lr = 1, weight_decay = 0\<rparr>]) ''min'' ''min'' (- (1/2)) (- 1) 0
       False (- 3) (MinScalar 0) (1/100000000)
     = Inr \<lparr> factor = - (1/2), min_lrs = [0], default_patience = - 1, effective_patience = - 1,
             verbose = False, cooldown = - 3, cooldown_counter = 0, mode = ''min'',
             aux_mode = ''min'', best = PInf, best_aux = PyNone, num_bad_epochs = 0,
             mode_worse = PInf, eps = 1/100000000, last_epoch = 0, last_lr = None,
             optimizer = [\<lparr>lr = 1, weight_decay = 0\<rparr>] \<rparr>"
  by (simp add: AnnealOnPlateau_init_def init_min_lrs_def init_is_better_def reset_def)

section \<open>Cooldown\<close>

lemma cooldown_round_in:
  "in_cooldown c \<Longrightarrow>
     cooldown_round c = c\<lparr>cooldown_counter := cooldown_counter c - 1, num_bad_epochs := 0\<rparr>"
  by (simp add: cooldown_round_def)

lemma record_round_counter [simp]:
  "cooldown_counter (record_round c current a b) = cooldown_counter c"
  "cooldown (record_round c current a b) = cooldown c"
  "effective_patience (record_round c current a b) = effective_patience c"
  by (simp_all add: record_round_def)

lemma reduce_round_result:
  assumes "reduce_round c = Inr (r, c')"
  shows "num_bad_epochs c' = (if r then 0 else num_bad_epochs c)"
    and "cooldown_counter c' = (if r then cooldown c else cooldown_counter c)"
    and "cooldown c' = cooldown c"
    and "r \<longleftrightarrow> num_bad_epochs c > effective_patience c"
  using assms
  by (auto simp: reduce_round_def reduce_lr_def split: if_splits sum.splits)

lemma step_in_cooldown:
  assumes "in_cooldown c" "step c m a = Inr (r, c')"
  shows "num_bad_epochs c' = 0"
    and "cooldown_counter c' = (if r then cooldown c else cooldown_counter c - 1)"
    and "cooldown c' = cooldown c"
    and "r \<longleftrightarrow> effective_patience c < 0"
proof -
  from assms(2) obtain current better c2 where
    rr: "reduce_round (cooldown_round
           (record_round (c\<lparr>last_epoch := last_epoch c + 1\<rparr>) current a better)) = Inr (r, c2)"
    and c': "c' = c2\<lparr>last_lr := Some (map lr (optimizer c2))\<rparr>"
    by (rule stepE)
  let ?c1 = "record_round (c\<lparr>last_epoch := last_epoch c + 1\<rparr>) current a better"
  have ic: "in_cooldown ?c1" using assms(1) by (simp add: in_cooldown_def)
  have mid: "num_bad_epochs (cooldown_round ?c1) = 0"
    "cooldown_counter (cooldown_round ?c1) = cooldown_counter c - 1"
    "cooldown (cooldown_round ?c1) = cooldown c"
    "effective_patience (cooldown_round ?c1) = effective_patience c"
    by (simp_all add: cooldown_round_in[OF ic])
  show "num_bad_epochs c' = 0" using reduce_round_result(1)[OF rr] mid c' by simp
  show "cooldown_counter c' = (if r then cooldown c else cooldown_counter c - 1)"
    using reduce_round_result(2)[OF rr] mid c' by simp
  show "cooldown c' = cooldown c" using reduce_round_result(3)[OF rr] mid c' by simp
  show "r \<longleftrightarrow> effective_patience c < 0" using reduce_round_result(4)[OF rr] mid by simp
qed

lemma step_reduced_counter:
  assumes "step c m a = Inr (True, c')"
  shows "cooldown_counter c' = cooldown c" "cooldown c' = cooldown c"
proof -
  from assms obtain current better c2 where
    rr: "reduce_round (cooldown_round
           (record_round (c\<lparr>last_epoch := last_epoch c + 1\<rparr>) current a better)) = Inr (True, c2)"
    and c': "c' = c2\<lparr>last_lr := Some (map lr (optimizer c2))\<rparr>"
    by (rule stepE)
  have "cooldown (cooldown_round
           (record_round (c\<lparr>last_epoch := last_epoch c + 1\<rparr>) current a better)) = cooldown c"
    by (simp add: cooldown_round_def)
  then show "cooldown_counter c' = cooldown c" "cooldown c' = cooldown c"
    using reduce_round_result(2,3)[OF rr] c' by simp_all
qed

lemma step_in_cooldown_returns:
  assumes "in_cooldown c" "0 \<le> effective_patience c"
    "py_float m = Inr current" "is_better c current a = Inr b"
  shows "\<exists>c'. step c m a = Inr (False, c')"
proof -
  let ?c1 = "record_round (c\<lparr>last_epoch := last_epoch c + 1\<rparr>) current a b"
  have ic: "in_cooldown ?c1" using assms(1) by (simp add: in_cooldown_def)
  have "num_bad_epochs (cooldown_round ?c1) = 0"
    "effective_patience (cooldown_round ?c1) = effective_patience c"
    by (simp_all add: cooldown_round_in[OF ic])
  then have "reduce_round (cooldown_round ?c1) = Inr (False, cooldown_round ?c1)"
    using assms(2) by (simp add: reduce_round_def)
  then show ?thesis using assms(3,4) by (simp add: step_def Let_def)
qed

text \<open>
  C3 (as amended). A round that starts in cooldown (\<open>cooldown_counter > 0\<close>) ends with
  \<open>num_bad_epochs = 0\<close>, whether or not the metric improved. The cooldown phase of the
  step follows the bad-round increment and overrides it: after a non-improving round it
  leaves the counter of bad rounds at 0 and the cooldown counter one lower. When the
  patience in force is at least 0, the step returns \<open>False\<close> and ends with the cooldown
  counter one lower, and a round in cooldown that compares its metrics without an
  exception does return. When the patience in force is negative, the step reduces
  (\<open>0 > patience\<close>) and ends with the cooldown counter reloaded to \<open>cooldown\<close>. In
  particular, after a reduction with \<open>cooldown = 2\<close>, each of the next two rounds ends
  with \<open>num_bad_epochs = 0\<close>.
\<close>

theorem cooldown_suppresses_bad_rounds:
  "(in_cooldown c \<and> step c m a = Inr (r, c') \<longrightarrow>
      num_bad_epochs c' = 0 \<and>
      cooldown_counter c' = (if r then cooldown c else cooldown_counter c - 1) \<and>
      (r \<longleftrightarrow> effective_patience c < 0)) \<and>
   (in_cooldown c \<and> 0 \<le> effective_patience c \<and> py_float m = Inr current \<and>
    is_better c current a = Inr b \<longrightarrow> (\<exists>c'. step c m a = Inr (False, c'))) \<and>
   (in_cooldown c \<longrightarrow>
      num_bad_epochs (cooldown_round (record_round c current a False)) = 0 \<and>
      cooldown_counter (cooldown_round (record_round c current a False)) = cooldown_counter c - 1) \<and>
   (cooldown c0 = 2 \<and> step c0 m0 a0 = Inr (True, c1) \<and>
    step c1 m1 a1 = Inr (r1, c2) \<and> step c2 m2 a2 = Inr (r2, c3) \<longrightarrow>
      num_bad_epochs c2 = 0 \<and> num_bad_epochs c3 = 0)"
proof (intro conjI impI)
  assume h: "in_cooldown c \<and> step c m a = Inr (r, c')"
  then show "num_bad_epochs c' = 0" using step_in_cooldown(1) by blast
  from h show "cooldown_counter c' = (if r then cooldown c else cooldown_counter c - 1)"
    using step_in_cooldown(2) by blast
  from h show "r \<longleftrightarrow> effective_patience c < 0" using step_in_cooldown(4) by blast
next
  assume "in_cooldown c \<and> 0 \<le> effective_patience c \<and> py_float m = Inr current \<and>
    is_better c current a = Inr b"
  then show "\<exists>c'. step c m a = Inr (False, c')" using step_in_cooldown_returns by blast
next
  assume ic: "in_cooldown c"
  then have "in_cooldown (record_round c current a False)" by (simp add: in_cooldown_def)
  then show "num_bad_epochs (cooldown_round (record_round c current a False)) = 0"
    "cooldown_counter (cooldown_round (record_round c current a False)) = cooldown_counter c - 1"
    by (simp_all add: cooldown_round_in)
next
  assume h: "cooldown c0 = 2 \<and> step c0 m0 a0 = Inr (True, c1) \<and>
    step c1 m1 a1 = Inr (r1, c2) \<and> step c2 m2 a2 = Inr (r2, c3)"
  then have c1: "cooldown_counter c1 = 2" "cooldown c1 = 2"
    using step_reduced_counter[of c0 m0 a0 c1] by simp_all
  then have ic1: "in_cooldown c1" by (simp add: in_cooldown_def)
  from h have s1: "step c1 m1 a1 = Inr (r1, c2)" and s2: "step c2 m2 a2 = Inr (r2, c3)" by simp_all
  show n2: "num_bad_epochs c2 = 0" using step_in_cooldown(1)[OF ic1 s1] .
  have "cooldown_counter c2 = (if r1 then 2 else 1)"
    using step_in_cooldown(2)[OF ic1 s1] c1 by simp
  then have ic2: "in_cooldown c2" by (simp add: in_cooldown_def)
  show "num_bad_epochs c3 = 0" using step_in_cooldown(1)[OF ic2 s2] .
qed

lemma example_reduce_step:
  "step example_plateau (PyNum (Fin 1)) PyNone = Inr (True, example_reduced)"
  by (simp add: example_plateau_def example_started_def example_reduced_def example_fresh_def
      step_eval)

lemma example_cooling_step:
  "step example_reduced (PyNum (Fin 1)) PyNone = Inr (False, example_cooling)"
  by (simp add: example_cooling_def example_reduced_def example_fresh_def step_eval)

lemma example_reduced_in_cooldown: "in_cooldown example_reduced"
  by (simp add: example_reduced_def example_fresh_def in_cooldown_def)

theorem cooldown_suppresses_bad_rounds_witness:
  "in_cooldown example_reduced \<and>
   step example_reduced (PyNum (Fin 1)) PyNone = Inr (False, example_cooling) \<and>
   num_bad_epochs example_cooling = 0 \<and>
   cooldown_counter example_cooling = cooldown_counter example_reduced - 1"
  using cooldown_suppresses_bad_rounds
    [of example_reduced "PyNum (Fin 1)" PyNone False example_cooling]
    example_reduced_in_cooldown example_cooling_step
  by simp

text \<open>
  The claim as written fails for a negative patience, which \<^verbatim>\<open>__init__\<close> accepts: with
  \<open>patience = -1\<close> and \<open>cooldown = 2\<close> the first round reduces and loads the cooldown
  counter with 2; the second round starts in cooldown, decrements the counter to 1,
  reduces again because \<open>0 > -1\<close>, and ends with the counter at 2, not at 1.
\<close>

theorem negative_patience_reloads_cooldown_counterexample:
  "AnnealOnPlateau_init (Optimizer [\<lparr>lr = 1, weight_decay = 0\<rparr>]) ''min'' ''min'' (1/2) (- 1) 0
       False 2 (MinScalar 0) (1/100000000) = Inr example_impatient \<and>
   step example_impatient (PyNum (Fin 1)) PyNone = Inr (True, example_impatient_once) \<and>
   cooldown_counter example_impatient_once = 2 \<and>
   step example_impatient_once (PyNum (Fin 1)) PyNone = Inr (True, example_impatient_twice) \<and>
   cooldown_counter example_impatient_twice = 2 \<and>
   cooldown_counter example_impatient_twice \<noteq> cooldown_counter example_impatient_once - 1"
  by (simp add: AnnealOnPlateau_init_def init_min_lrs_def init_is_better_def reset_def
      example_impatient_def example_impatient_once_def example_impatient_twice_def step_eval)

section \<open>The tie-break on the auxiliary metric\<close>

lemma reduce_round_keeps:
  assumes "reduce_round c = Inr (r, c')"
  shows "best c' = best c" "best_aux c' = best_aux c" "mode c' = mode c" "aux_mode c' = aux_mode c"
    "factor c' = factor c" "eps c' = eps c" "min_lrs c' = min_lrs c" "last_epoch c' = last_epoch c"
  using assms
  by (auto simp: reduce_round_def reduce_lr_def split: if_splits sum.splits)

lemma reduce_round_returns:
  assumes "length (optimizer c) \<le> length (min_lrs c)"
  shows "\<exists>r c'. reduce_round c = Inr (r, c')"
  using reduce_groups_Inr[OF assms, of "factor c" "eps c"]
  by (auto simp: reduce_round_def reduce_lr_def)

lemma phases_keep_lists [simp]:
  "optimizer (cooldown_round c) = optimizer c"
  "min_lrs (cooldown_round c) = min_lrs c"
  "optimizer (record_round c current a b) = optimizer c"
  "min_lrs (record_round c current a b) = min_lrs c"
  by (simp_all add: cooldown_round_def record_round_def)

lemma step_returns:
  assumes "py_float m = Inr current" "is_better c current a = Inr b"
    "length (optimizer c) \<le> length (min_lrs c)"
  shows "\<exists>r c'. step c m a = Inr (r, c')"
proof -
  let ?c1 = "cooldown_round (record_round (c\<lparr>last_epoch := last_epoch c + 1\<rparr>) current a b)"
  have "length (optimizer ?c1) \<le> length (min_lrs ?c1)" using assms(3) by simp
  from reduce_round_returns[OF this] obtain r c2 where "reduce_round ?c1 = Inr (r, c2)" by blast
  then show ?thesis using assms(1,2) by (simp add: step_def Let_def)
qed

lemma tie_is_better:
  assumes "flt_eq current (best c)" "truthy a" "py_float a = Inr current_aux"
    "best_aux c = PyNum old_aux"
    "(aux_mode c = ''min'' \<and> flt_lt current_aux old_aux) \<or>
     (aux_mode c = ''max'' \<and> flt_gt current_aux old_aux)"
  shows "is_better c current a = Inr True"
proof -
  have "aux_better c current_aux = Inr True"
    using assms(4,5) by (auto simp: aux_better_def)
  then show ?thesis using assms(1-3) by (simp add: is_better_def)
qed

lemma step_better:
  assumes "py_float m = Inr current" "is_better c current a = Inr True" "truthy a"
    "step c m a = Inr (r, c')"
  shows "best c' = current" "best_aux c' = a" "num_bad_epochs c' = 0"
proof -
  from assms(4) obtain cur better c2 where
    pf: "py_float m = Inr cur" and ib: "is_better c cur a = Inr better"
    and rr: "reduce_round (cooldown_round
           (record_round (c\<lparr>last_epoch := last_epoch c + 1\<rparr>) cur a better)) = Inr (r, c2)"
    and c': "c' = c2\<lparr>last_lr := Some (map lr (optimizer c2))\<rparr>"
    by (rule stepE)
  from pf assms(1) have cur: "cur = current" by simp
  with ib assms(2) have better: "better = True" by simp
  let ?c1 = "cooldown_round (record_round (c\<lparr>last_epoch := last_epoch c + 1\<rparr>) current a True)"
  have mid: "best ?c1 = current" "best_aux ?c1 = a" "num_bad_epochs ?c1 = 0"
    using assms(3) by (simp_all add: cooldown_round_def record_round_def)
  from rr cur better have rr': "reduce_round ?c1 = Inr (r, c2)" by simp
  show "best c' = current" using reduce_round_keeps(1)[OF rr'] mid c' by simp
  show "best_aux c' = a" using reduce_round_keeps(2)[OF rr'] mid c' by simp
  show "num_bad_epochs c' = 0" using reduce_round_result(1)[OF rr'] mid c' by simp
qed

text \<open>
  C2. In a round whose primary metric is exactly equal to \<open>best\<close> and whose auxiliary
  metric is truthy, converts to a float and is strictly better than the stored
  \<open>best_aux\<close> under \<open>aux_mode\<close>, the comparison ends with \<^verbatim>\<open>is_better\<close> true; when
  the step returns, \<open>best_aux\<close> is the auxiliary metric that was supplied and
  \<open>num_bad_epochs\<close> is 0; and the step does return when every parameter group has its
  entry in \<open>min_lrs\<close>.
\<close>

theorem tie_break_registers_improvement:
  assumes "py_float m = Inr current" and "flt_eq current (best c)"
    and "truthy a" and "py_float a = Inr current_aux"
    and "best_aux c = PyNum old_aux"
    and "(aux_mode c = ''min'' \<and> flt_lt current_aux old_aux) \<or>
         (aux_mode c = ''max'' \<and> flt_gt current_aux old_aux)"
  shows "is_better c current a = Inr True \<and>
         (\<forall>r c'. step c m a = Inr (r, c') \<longrightarrow>
            best c' = current \<and> best_aux c' = a \<and> num_bad_epochs c' = 0) \<and>
         (length (optimizer c) \<le> length (min_lrs c) \<longrightarrow> (\<exists>r c'. step c m a = Inr (r, c')))"
proof -
  have ib: "is_better c current a = Inr True"
    using tie_is_better[OF assms(2-6)] .
  show ?thesis
    using ib step_better[OF assms(1) ib assms(3)] step_returns[OF assms(1) ib]
    by blast
qed

lemma example_tied_step:
  "step example_fresh (PyNum (Fin 1)) (PyNum (Fin 1)) = Inr (False, example_tied)"
  by (simp add: example_tied_def example_started_def example_fresh_def step_eval)

theorem tie_break_registers_improvement_witness:
  "is_better example_tied (Fin 1) (PyNum (Fin (1/2))) = Inr True \<and>
   (\<exists>r c'. step example_tied (PyNum (Fin 1)) (PyNum (Fin (1/2))) = Inr (r, c'))"
  using tie_break_registers_improvement
    [of "PyNum (Fin 1)" "Fin 1" example_tied "PyNum (Fin (1/2))" "Fin (1/2)" "Fin 1"]
  by (simp add: example_tied_def example_started_def example_fresh_def)

section \<open>A plateau\<close>








section \<open>The learning rate never goes up\<close>

lemma reduce_group_lr_le: "0 \<le> e \<Longrightarrow> lr (reduce_group f e m g) \<le> lr g"
  by (simp add: lr_reduce_group Let_def max_def)

lemma reduce_group_at_floor: "0 \<le> e \<Longrightarrow> lr g \<le> m \<Longrightarrow> reduce_group f e m g = g"
  by (simp add: reduce_group_def py_max_max Let_def)

lemma reduce_round_optimizer:
  assumes "reduce_round c = Inr (r, c')"
  shows "optimizer c' =
           (if r then map2 (reduce_group (factor c) (eps c)) (min_lrs c) (optimizer c)
            else optimizer c)"
    and "r \<Longrightarrow> length (optimizer c) \<le> length (min_lrs c)"
  using assms reduce_groups_InrD[of "factor c" "eps c" "min_lrs c" "optimizer c"]
  by (auto simp: reduce_round_def reduce_lr_def split: if_splits sum.splits)

lemma phases_keep_params [simp]:
  "factor (cooldown_round c) = factor c"
  "eps (cooldown_round c) = eps c"
  "factor (record_round c current a b) = factor c"
  "eps (record_round c current a b) = eps c"
  by (simp_all add: cooldown_round_def record_round_def)

lemma step_optimizer:
  assumes "step c m a = Inr (r, c')"
  shows "optimizer c' =
           (if r then map2 (reduce_group (factor c) (eps c)) (min_lrs c) (optimizer c)
            else optimizer c)"
    and "r \<Longrightarrow> length (optimizer c) \<le> length (min_lrs c)"
proof -
  from assms obtain current better c2 where
    rr: "reduce_round (cooldown_round
           (record_round (c\<lparr>last_epoch := last_epoch c + 1\<rparr>) current a better)) = Inr (r, c2)"
    and c': "c' = c2\<lparr>last_lr := Some (map lr (optimizer c2))\<rparr>"
    by (rule stepE)
  show "optimizer c' =
           (if r then map2 (reduce_group (factor c) (eps c)) (min_lrs c) (optimizer c)
            else optimizer c)"
    using reduce_round_optimizer(1)[OF rr] c' by simp
  show "r \<Longrightarrow> length (optimizer c) \<le> length (min_lrs c)"
    using reduce_round_optimizer(2)[OF rr] by simp
qed

text \<open>
  C10 (as amended). For a scheduler with \<open>eps \<ge> 0\<close>, no step that returns raises the
  learning rate of any parameter group, and the groups stay as many as they were. A rate
  changes only in a step that reduces, and only where
  \<open>old_lr - max (old_lr * factor) min_lr > eps\<close>; a group whose rate is at or below its
  \<open>min_lr\<close> is left as it is, not raised to the floor.
\<close>

theorem step_never_raises_lr:
  assumes "0 \<le> eps c" and "step c m a = Inr (r, c')"
  shows "length (optimizer c') = length (optimizer c) \<and>
         (\<forall>i<length (optimizer c).
            lr (optimizer c' ! i) \<le> lr (optimizer c ! i) \<and>
            (lr (optimizer c ! i) \<le> min_lrs c ! i \<longrightarrow> optimizer c' ! i = optimizer c ! i) \<and>
            (lr (optimizer c' ! i) \<noteq> lr (optimizer c ! i) \<longrightarrow>
               r \<and> lr (optimizer c ! i) - max (lr (optimizer c ! i) * factor c) (min_lrs c ! i) > eps c))"
proof (cases r)
  case False
  with step_optimizer(1)[OF assms(2)] show ?thesis by simp
next
  case True
  from step_optimizer(2)[OF assms(2)] True
  have len: "length (optimizer c) \<le> length (min_lrs c)" by simp
  from step_optimizer(1)[OF assms(2)] True
  have o: "optimizer c' = map2 (reduce_group (factor c) (eps c)) (min_lrs c) (optimizer c)" by simp
  have l: "length (optimizer c') = length (optimizer c)" using o len by simp
  have "\<And>i. i < length (optimizer c) \<Longrightarrow>
          optimizer c' ! i = reduce_group (factor c) (eps c) (min_lrs c ! i) (optimizer c ! i)"
    using o len by simp
  then show ?thesis
    using l True assms(1)
    by (auto simp: reduce_group_lr_le reduce_group_at_floor lr_reduce_group Let_def)
qed

theorem step_never_raises_lr_witness:
  "0 \<le> eps example_plateau \<and>
   step example_plateau (PyNum (Fin 1)) PyNone = Inr (True, example_reduced) \<and>
   lr (optimizer example_reduced ! 0) \<le> lr (optimizer example_plateau ! 0)"
proof -
  have h1: "0 \<le> eps example_plateau"
    by (simp add: example_plateau_def example_started_def example_fresh_def)
  have len: "0 < length (optimizer example_plateau)"
    by (simp add: example_plateau_def example_started_def example_fresh_def)
  from step_never_raises_lr[OF h1 example_reduce_step] len
  have "lr (optimizer example_reduced ! 0) \<le> lr (optimizer example_plateau ! 0)"
    by blast
  with h1 example_reduce_step show ?thesis by simp
qed

text \<open>
  The claim as written fails for a negative \<open>eps\<close>, which \<^verbatim>\<open>__init__\<close> accepts: the
  second round with metric 1.0 reduces, and \<open>0.1 - max(0.01, 0.5) = -0.4 > -1\<close> writes the
  floor 0.5 over the rate 0.1.
\<close>

theorem negative_eps_raises_lr_counterexample:
  "AnnealOnPlateau_init (Optimizer [\<lparr>lr = 1/10, weight_decay = 0\<rparr>]) ''min'' ''min'' (1/10) 0 0
       False 0 (MinScalar (1/2)) (- 1) = Inr example_negative_eps \<and>
   run example_negative_eps [round_of 1, round_of 1] = Inr ([False, True], example_raised) \<and>
   lr (optimizer example_negative_eps ! 0) = 1/10 \<and>
   lr (optimizer example_raised ! 0) = 1/2 \<and>
   lr (optimizer example_negative_eps ! 0) < lr (optimizer example_raised ! 0)"
  by (simp add: AnnealOnPlateau_init_def init_min_lrs_def init_is_better_def reset_def
      example_negative_eps_def example_raised_def step_eval)

section \<open>Checkpoint and resume\<close>

lemma record_round_unread:
  "record_round (c\<lparr>mode_worse := x\<rparr>) cur a b = (record_round c cur a b)\<lparr>mode_worse := x\<rparr>"
  "record_round (c\<lparr>last_lr := y\<rparr>) cur a b = (record_round c cur a b)\<lparr>last_lr := y\<rparr>"
  by (simp_all add: record_round_def)

lemma cooldown_round_unread:
  "cooldown_round (c\<lparr>mode_worse := x\<rparr>) = (cooldown_round c)\<lparr>mode_worse := x\<rparr>"
  "cooldown_round (c\<lparr>last_lr := y\<rparr>) = (cooldown_round c)\<lparr>last_lr := y\<rparr>"
  by (simp_all add: cooldown_round_def in_cooldown_def)

lemma reduce_round_unread:
  "reduce_round (c\<lparr>mode_worse := x\<rparr>) =
     map_sum id (apsnd (\<lambda>c'. c'\<lparr>mode_worse := x\<rparr>)) (reduce_round c)"
  "reduce_round (c\<lparr>last_lr := y\<rparr>) =
     map_sum id (apsnd (\<lambda>c'. c'\<lparr>last_lr := y\<rparr>)) (reduce_round c)"
  by (simp_all add: reduce_round_def reduce_lr_def split: sum.splits)

lemma is_better_unread [simp]:
  "is_better (c\<lparr>mode_worse := x\<rparr>) cur a = is_better c cur a"
  "is_better (c\<lparr>last_lr := y\<rparr>) cur a = is_better c cur a"
  by (rule is_better_fields; simp)+

lemma map_sum_apsnd_twice:
  "map_sum id (apsnd f) (map_sum id (apsnd g) z) = map_sum id (apsnd (\<lambda>c. f (g c))) z"
  by (cases z) auto

lemma swap_mode_worse_last_lr:
  "map_sum id (apsnd (\<lambda>c2. c2\<lparr>last_lr := Some (map lr (optimizer c2))\<rparr>))
     (map_sum id (apsnd (\<lambda>c'. c'\<lparr>mode_worse := x\<rparr>)) z) =
   map_sum id (apsnd (\<lambda>c'. c'\<lparr>mode_worse := x\<rparr>))
     (map_sum id (apsnd (\<lambda>c2. c2\<lparr>last_lr := Some (map lr (optimizer c2))\<rparr>)) z)"
  by (cases z) auto

lemma step_unfold:
  "step c m a =
     (case py_float m of
        Inl e \<Rightarrow> Inl e
      | Inr cur \<Rightarrow>
          (case is_better c cur a of
             Inl e \<Rightarrow> Inl e
           | Inr b \<Rightarrow>
               map_sum id (apsnd (\<lambda>c2. c2\<lparr>last_lr := Some (map lr (optimizer c2))\<rparr>))
                 (reduce_round (cooldown_round
                    (record_round (c\<lparr>last_epoch := last_epoch c + 1\<rparr>) cur a b)))))"
  by (simp add: step_def Let_def split: sum.splits prod.splits)

lemma step_mode_worse:
  "step (c\<lparr>mode_worse := x\<rparr>) m a =
     map_sum id (apsnd (\<lambda>c'. c'\<lparr>mode_worse := x\<rparr>)) (step c m a)"
proof -
  have e1: "\<And>cur b. reduce_round (cooldown_round
              (record_round (c\<lparr>mode_worse := x\<rparr>\<lparr>last_epoch := last_epoch (c\<lparr>mode_worse := x\<rparr>) + 1\<rparr>) cur a b))
          = map_sum id (apsnd (\<lambda>c'. c'\<lparr>mode_worse := x\<rparr>))
              (reduce_round (cooldown_round
                 (record_round (c\<lparr>last_epoch := last_epoch c + 1\<rparr>) cur a b)))"
  proof -
    fix cur b
    have "c\<lparr>mode_worse := x\<rparr>\<lparr>last_epoch := last_epoch (c\<lparr>mode_worse := x\<rparr>) + 1\<rparr>
            = (c\<lparr>last_epoch := last_epoch c + 1\<rparr>)\<lparr>mode_worse := x\<rparr>"
      by simp
    then show "reduce_round (cooldown_round
              (record_round (c\<lparr>mode_worse := x\<rparr>\<lparr>last_epoch := last_epoch (c\<lparr>mode_worse := x\<rparr>) + 1\<rparr>) cur a b))
          = map_sum id (apsnd (\<lambda>c'. c'\<lparr>mode_worse := x\<rparr>))
              (reduce_round (cooldown_round
                 (record_round (c\<lparr>last_epoch := last_epoch c + 1\<rparr>) cur a b)))"
      by (simp only: record_round_unread cooldown_round_unread reduce_round_unread)
  qed
  show ?thesis
    unfolding step_unfold[of "c\<lparr>mode_worse := x\<rparr>"] step_unfold[of c] e1 is_better_unread
    by (simp add: swap_mode_worse_last_lr split: sum.splits)
qed

lemma step_last_lr:
  "step (c\<lparr>last_lr := y\<rparr>) m a = step c m a"
proof -
  have e1: "\<And>cur b. reduce_round (cooldown_round
              (record_round (c\<lparr>last_lr := y\<rparr>\<lparr>last_epoch := last_epoch (c\<lparr>last_lr := y\<rparr>) + 1\<rparr>) cur a b))
          = map_sum id (apsnd (\<lambda>c'. c'\<lparr>last_lr := y\<rparr>))
              (reduce_round (cooldown_round
                 (record_round (c\<lparr>last_epoch := last_epoch c + 1\<rparr>) cur a b)))"
  proof -
    fix cur b
    have "c\<lparr>last_lr := y\<rparr>\<lparr>last_epoch := last_epoch (c\<lparr>last_lr := y\<rparr>) + 1\<rparr>
            = (c\<lparr>last_epoch := last_epoch c + 1\<rparr>)\<lparr>last_lr := y\<rparr>"
      by simp
    then show "reduce_round (cooldown_round
              (record_round (c\<lparr>last_lr := y\<rparr>\<lparr>last_epoch := last_epoch (c\<lparr>last_lr := y\<rparr>) + 1\<rparr>) cur a b))
          = map_sum id (apsnd (\<lambda>c'. c'\<lparr>last_lr := y\<rparr>))
              (reduce_round (cooldown_round
                 (record_round (c\<lparr>last_epoch := last_epoch c + 1\<rparr>) cur a b)))"
      by (simp only: record_round_unread cooldown_round_unread reduce_round_unread)
  qed
  show ?thesis
    unfolding step_unfold[of "c\<lparr>last_lr := y\<rparr>"] step_unfold[of c] e1 is_better_unread
    by (auto split: sum.splits simp: map_sum_apsnd_twice)
qed

lemma run_mode_worse:
  "run (c\<lparr>mode_worse := x\<rparr>) ms =
     map_sum id (apsnd (\<lambda>c'. c'\<lparr>mode_worse := x\<rparr>)) (run c ms)"
proof (induction ms arbitrary: c)
  case Nil
  then show ?case by simp
next
  case (Cons p ms)
  obtain m a where p: "p = (m, a)" by (cases p)
  show ?case
    unfolding p run.simps step_mode_worse
    by (cases "step c m a") (auto simp: Cons.IH split: sum.splits)
qed

lemma run_last_lr:
  "ms \<noteq> [] \<Longrightarrow> run (c\<lparr>last_lr := y\<rparr>) ms = run c ms"
  by (cases ms) (auto simp: step_last_lr)

lemma load_state_dict_roundtrip:
  assumes "mode c = ''min'' \<or> mode c = ''max''"
  shows "load_state_dict fresh (state_dict c) =
           Inr (c\<lparr>mode_worse := (if mode c = ''min'' then PInf else NInf),
                  last_lr := (case last_lr c of None \<Rightarrow> last_lr fresh | Some l \<Rightarrow> Some l),
                  optimizer := optimizer fresh\<rparr>)"
  using assms
  by (cases c; cases fresh)
     (auto simp: load_state_dict_def state_dict_def init_is_better_def Let_def
        sched_dict.defs AnnealOnPlateau.defs split: option.splits)

lemma init_mode:
  "AnnealOnPlateau_init opt md aux_md fct patience extra verb cd min_lr ep = Inr c \<Longrightarrow>
     mode c = ''min'' \<or> mode c = ''max''"
  by (auto simp: AnnealOnPlateau_init_def init_is_better_def reset_def
      split: if_splits optimizer_arg.splits sum.splits)

lemma step_mode:
  assumes "step c m a = Inr (r, c')"
  shows "mode c' = mode c"
proof -
  from assms obtain current better c2 where
    rr: "reduce_round (cooldown_round
           (record_round (c\<lparr>last_epoch := last_epoch c + 1\<rparr>) current a better)) = Inr (r, c2)"
    and c': "c' = c2\<lparr>last_lr := Some (map lr (optimizer c2))\<rparr>"
    by (rule stepE)
  have "mode (cooldown_round
           (record_round (c\<lparr>last_epoch := last_epoch c + 1\<rparr>) current a better)) = mode c"
    by (simp add: cooldown_round_def record_round_def)
  with reduce_round_keeps(3)[OF rr] c' show ?thesis by simp
qed

lemma run_mode:
  "run c ms = Inr (rs, c') \<Longrightarrow> mode c' = mode c"
proof (induction ms arbitrary: c rs)
  case Nil
  then show ?case by simp
next
  case (Cons x ms)
  obtain m a where x: "x = (m, a)" by (cases x)
  from Cons.prems x have "run c ((m, a) # ms) = Inr (rs, c')" by simp
  then obtain r c1 rs1 where
    s: "step c m a = Inr (r, c1)" and rn: "run c1 ms = Inr (rs1, c')"
    by (rule runE)
  from Cons.IH[OF rn] step_mode[OF s] show ?case by simp
qed

lemma observed_unread:
  "observed (run (c\<lparr>mode_worse := x, last_lr := y\<rparr>) ms) = observed (run c ms)"
proof (cases ms)
  case Nil
  then show ?thesis by (simp add: observed_def)
next
  case (Cons p rest)
  then have "run (c\<lparr>mode_worse := x, last_lr := y\<rparr>) ms = run (c\<lparr>mode_worse := x\<rparr>) ms"
    using run_last_lr[where ms = ms and c = "c\<lparr>mode_worse := x\<rparr>" and y = y] by simp
  then show ?thesis
    unfolding observed_def run_mode_worse
    by (cases "run c ms") auto
qed

text \<open>
  C5. Take the state of a scheduler reached by any run of rounds from its construction,
  export it with \<^verbatim>\<open>state_dict\<close>, and load it with \<^verbatim>\<open>load_state_dict\<close> into any
  scheduler whose optimizer has the same parameter groups. The load succeeds, the
  optimizer of the loading scheduler stays attached, and every further sequence of
  rounds gives the restored scheduler the same exception or else the same results and
  the same parameter groups as it gives the original.
\<close>

theorem state_dict_round_trip:
  assumes "AnnealOnPlateau_init opt md aux_md fct patience initial_extra_patience verb cd min_lr ep
             = Inr c0"
    and "run c0 history = Inr (rs0, c)"
    and "optimizer other = optimizer c"
  shows "\<exists>restored. load_state_dict other (state_dict c) = Inr restored \<and>
           optimizer restored = optimizer other \<and>
           (\<forall>ms. observed (run restored ms) = observed (run c ms))"
proof -
  have md: "mode c = ''min'' \<or> mode c = ''max''"
    using init_mode[OF assms(1)] run_mode[OF assms(2)] by simp
  let ?x = "if mode c = ''min'' then PInf else NInf"
  let ?y = "case last_lr c of None \<Rightarrow> last_lr other | Some l \<Rightarrow> Some l"
  let ?restored = "c\<lparr>mode_worse := ?x, last_lr := ?y, optimizer := optimizer other\<rparr>"
  have l: "load_state_dict other (state_dict c) = Inr ?restored"
    using load_state_dict_roundtrip[OF md] .
  have "?restored = c\<lparr>mode_worse := ?x, last_lr := ?y\<rparr>"
    using assms(3) by simp
  then have "\<forall>ms. observed (run ?restored ms) = observed (run c ms)"
    by (simp only: observed_unread) simp
  moreover have "optimizer ?restored = optimizer other" by simp
  ultimately show ?thesis using l by blast
qed

lemma example_started_run:
  "run example_fresh [round_of 1] = Inr ([False], example_started)"
  using example_started_step by (simp add: round_of_def)

lemma example_same_optimizer: "optimizer example_fresh = optimizer example_started"
  by (simp add: example_started_def)

theorem state_dict_round_trip_witness:
  "\<exists>restored. load_state_dict example_fresh (state_dict example_started) = Inr restored \<and>
      observed (run restored [round_of 1, round_of 1, round_of 1])
        = observed (run example_started [round_of 1, round_of 1, round_of 1])"
  using state_dict_round_trip [OF example_fresh_init example_started_run example_same_optimizer]
  by blast

section \<open>Exceptions raised by a step\<close>

text \<open>
  C7. A step can raise although both of its metrics convert to floats. With
  \<^verbatim>\<open>step(1.0)\<close> the fresh scheduler records \<open>best = 1.0\<close> and leaves \<open>best_aux\<close> at
  \<^verbatim>\<open>None\<close>; the next call \<^verbatim>\<open>step(1.0, 0.5)\<close> ties on the primary metric, so it
  evaluates \<^verbatim>\<open>current_aux < self.best_aux\<close>, that is \<^verbatim>\<open>0.5 < None\<close>, a TypeError.
\<close>

theorem step_tie_without_best_aux_raises:
  "py_float (PyNum (Fin 1)) = Inr (Fin 1) \<and>
   py_float (PyNum (Fin (1/2))) = Inr (Fin (1/2)) \<and>
   AnnealOnPlateau_init (Optimizer [\<lparr>lr = 1, weight_decay = 0\<rparr>]) ''min'' ''min'' (1/2) 1 1
       False 2 (MinScalar 0) (1/100000000) = Inr example_fresh \<and>
   step example_fresh (PyNum (Fin 1)) PyNone = Inr (False, example_started) \<and>
   best_aux example_started = PyNone \<and>
   step example_started (PyNum (Fin 1)) (PyNum (Fin (1/2))) = Inl TypeError"
  by (simp add: example_fresh_init example_started_step)
     (simp add: example_started_def example_fresh_def step_eval)

section \<open>Schedulers reached from their construction\<close>

lemma init_shape:
  assumes "AnnealOnPlateau_init opt md aux_md fct patience extra verb cd min_lr ep = Inr c"
  shows "length (min_lrs c) = length (optimizer c)" and "cooldown_counter c = 0"
    and "cooldown c = cd" and "num_bad_epochs c = 0"
  using assms
  by (auto simp: AnnealOnPlateau_init_def init_min_lrs_def init_is_better_def reset_def
      split: if_splits optimizer_arg.splits min_lr_arg.splits sum.splits)

lemma step_shape:
  assumes "step c m a = Inr (r, c')"
  shows "min_lrs c' = min_lrs c" and "length (optimizer c') = length (optimizer c)"
    and "cooldown c' = cooldown c"
    and "cooldown c = 0 \<Longrightarrow> cooldown_counter c = 0 \<Longrightarrow> cooldown_counter c' = 0"
proof -
  from assms obtain current better c2 where
    rr: "reduce_round (cooldown_round
           (record_round (c\<lparr>last_epoch := last_epoch c + 1\<rparr>) current a better)) = Inr (r, c2)"
    and c': "c' = c2\<lparr>last_lr := Some (map lr (optimizer c2))\<rparr>"
    by (rule stepE)
  let ?c1 = "cooldown_round (record_round (c\<lparr>last_epoch := last_epoch c + 1\<rparr>) current a better)"
  have mid: "cooldown ?c1 = cooldown c"
    "cooldown_counter ?c1 = (if in_cooldown c then cooldown_counter c - 1 else cooldown_counter c)"
    by (simp_all add: cooldown_round_def in_cooldown_def)
  show "min_lrs c' = min_lrs c" using reduce_round_keeps(7)[OF rr] c' by simp
  show "length (optimizer c') = length (optimizer c)"
    using step_optimizer[OF assms] by (auto split: if_splits)
  show "cooldown c' = cooldown c" using reduce_round_result(3)[OF rr] mid c' by simp
  show "cooldown c = 0 \<Longrightarrow> cooldown_counter c = 0 \<Longrightarrow> cooldown_counter c' = 0"
    using reduce_round_result(2)[OF rr] mid c' by (simp add: in_cooldown_def)
qed

lemma run_shape:
  "run c ms = Inr (rs, c') \<Longrightarrow>
     min_lrs c' = min_lrs c \<and> length (optimizer c') = length (optimizer c) \<and>
     cooldown c' = cooldown c \<and>
     (cooldown c = 0 \<and> cooldown_counter c = 0 \<longrightarrow> cooldown_counter c' = 0)"
proof (induction ms arbitrary: c rs)
  case Nil
  then show ?case by simp
next
  case (Cons x ms)
  obtain m a where x: "x = (m, a)" by (cases x)
  from Cons.prems x have "run c ((m, a) # ms) = Inr (rs, c')" by simp
  then obtain r c1 rs1 where
    s: "step c m a = Inr (r, c1)" and rn: "run c1 ms = Inr (rs1, c')"
    by (rule runE)
  from Cons.IH[OF rn] step_shape[OF s] show ?case by simp
qed

text \<open>
  Every scheduler reached from its construction has one \<open>min_lrs\<close> entry per parameter
  group, and one built with \<open>cooldown = 0\<close> is never in cooldown.
\<close>

lemma constructed_shape:
  assumes "AnnealOnPlateau_init opt md aux_md fct patience extra verb cd min_lr ep = Inr c0"
    and "run c0 ms = Inr (rs, c)"
  shows "length (optimizer c) \<le> length (min_lrs c)" and "cd = 0 \<Longrightarrow> \<not> in_cooldown c"
  using init_shape[OF assms(1)] run_shape[OF assms(2)] by (simp_all add: in_cooldown_def)

section \<open>The weight-decay variant\<close>

lemma reduce_wd_group_fields:
  "lr (reduce_wd_group f e m g) = lr g"
  "weight_decay (reduce_wd_group f e m g) =
     (let old = weight_decay g; new = max (old * f) m in if old - new > e then new else old)"
  by (simp_all add: reduce_wd_group_def py_max_max Let_def)

lemma reduce_wd_groups_InrD:
  "reduce_wd_groups f e ms gs = Inr gs' \<Longrightarrow>
     length gs' = length gs \<and>
     (\<forall>i<length gs.
        (weight_decay (gs ! i) \<noteq> 0 \<longrightarrow> i < length ms) \<and>
        gs' ! i = (if weight_decay (gs ! i) \<noteq> 0 then reduce_wd_group f e (ms ! i) (gs ! i)
                   else gs ! i))"
proof (induction gs arbitrary: ms gs')
  case Nil
  then show ?case by simp
next
  case (Cons g gs)
  show ?case
  proof (cases "weight_decay g \<noteq> 0")
    case True
    with Cons.prems obtain m ms' rest where ms: "ms = m # ms'"
      and r: "reduce_wd_groups f e ms' gs = Inr rest"
      and gs': "gs' = reduce_wd_group f e m g # rest"
      by (auto split: list.splits sum.splits)
    from Cons.IH[OF r] have ih: "length rest = length gs"
      "\<And>i. i < length gs \<Longrightarrow> (weight_decay (gs ! i) \<noteq> 0 \<longrightarrow> i < length ms') \<and>
        rest ! i = (if weight_decay (gs ! i) \<noteq> 0 then reduce_wd_group f e (ms' ! i) (gs ! i)
                   else gs ! i)"
      by auto
    show ?thesis
    proof (intro conjI)
      show "length gs' = length (g # gs)" using gs' ih(1) by simp
    next
      show "\<forall>i<length (g # gs). (weight_decay ((g # gs) ! i) \<noteq> 0 \<longrightarrow> i < length ms) \<and>
        gs' ! i = (if weight_decay ((g # gs) ! i) \<noteq> 0
                   then reduce_wd_group f e (ms ! i) ((g # gs) ! i) else (g # gs) ! i)"
      proof (intro allI impI)
        fix i assume "i < length (g # gs)"
        then show "(weight_decay ((g # gs) ! i) \<noteq> 0 \<longrightarrow> i < length ms) \<and>
          gs' ! i = (if weight_decay ((g # gs) ! i) \<noteq> 0
                     then reduce_wd_group f e (ms ! i) ((g # gs) ! i) else (g # gs) ! i)"
          using True ms gs' ih(2) by (cases i) auto
      qed
    qed
  next
    case False
    with Cons.prems obtain rest where
      r: "reduce_wd_groups f e (tl ms) gs = Inr rest" and gs': "gs' = g # rest"
      by (auto split: sum.splits)
    from Cons.IH[OF r] have ih: "length rest = length gs"
      "\<And>i. i < length gs \<Longrightarrow> (weight_decay (gs ! i) \<noteq> 0 \<longrightarrow> i < length (tl ms)) \<and>
        rest ! i = (if weight_decay (gs ! i) \<noteq> 0 then reduce_wd_group f e (tl ms ! i) (gs ! i)
                   else gs ! i)"
      by auto
    show ?thesis
    proof (intro conjI)
      show "length gs' = length (g # gs)" using gs' ih(1) by simp
    next
      show "\<forall>i<length (g # gs). (weight_decay ((g # gs) ! i) \<noteq> 0 \<longrightarrow> i < length ms) \<and>
        gs' ! i = (if weight_decay ((g # gs) ! i) \<noteq> 0
                   then reduce_wd_group f e (ms ! i) ((g # gs) ! i) else (g # gs) ! i)"
      proof (intro allI impI)
        fix i assume i: "i < length (g # gs)"
        show "(weight_decay ((g # gs) ! i) \<noteq> 0 \<longrightarrow> i < length ms) \<and>
          gs' ! i = (if weight_decay ((g # gs) ! i) \<noteq> 0
                     then reduce_wd_group f e (ms ! i) ((g # gs) ! i) else (g # gs) ! i)"
        proof (cases i)
          case 0
          with False gs' show ?thesis by simp
        next
          case (Suc j)
          with i have j: "j < length gs" by simp
          from ih(2)[OF j] Suc gs' show ?thesis
            by (cases ms) (auto simp: nth_tl)
        qed
      qed
    qed
  qed
qed

lemma reduce_wd_groups_returns:
  "length gs \<le> length ms \<Longrightarrow> \<exists>gs'. reduce_wd_groups f e ms gs = Inr gs'"
proof (induction gs arbitrary: ms)
  case Nil
  then show ?case by simp
next
  case (Cons g gs)
  then obtain m ms' where ms: "ms = m # ms'" by (cases ms) auto
  with Cons.prems have "length gs \<le> length ms'" by simp
  from Cons.IH[OF this] obtain gs' where "reduce_wd_groups f e ms' gs = Inr gs'" by blast
  with ms show ?case by simp
qed

lemma reduce_weight_decay_InrD:
  assumes "reduce_weight_decay s = Inr s'"
  shows "length (wd_optimizer s') = length (wd_optimizer s)"
    and "\<forall>i<length (wd_optimizer s).
           lr (wd_optimizer s' ! i) = lr (wd_optimizer s ! i) \<and>
           weight_decay (wd_optimizer s' ! i) =
             (let old_wd = weight_decay (wd_optimizer s ! i);
                  new_wd = max (old_wd * wd_factor s) (wd_min_lrs s ! i)
              in if old_wd \<noteq> 0 \<and> old_wd - new_wd > wd_eps s then new_wd else old_wd)"
    and "s' = s\<lparr>wd_optimizer := wd_optimizer s'\<rparr>"
proof -
  from assms obtain gs where
    g: "reduce_wd_groups (wd_factor s) (wd_eps s) (wd_min_lrs s) (wd_optimizer s) = Inr gs"
    and s': "s' = s\<lparr>wd_optimizer := gs\<rparr>"
    by (auto simp: reduce_weight_decay_def split: sum.splits)
  from reduce_wd_groups_InrD[OF g] have
    l: "length gs = length (wd_optimizer s)" and
    n: "\<And>i. i < length (wd_optimizer s) \<Longrightarrow>
          gs ! i = (if weight_decay (wd_optimizer s ! i) \<noteq> 0
                    then reduce_wd_group (wd_factor s) (wd_eps s) (wd_min_lrs s ! i) (wd_optimizer s ! i)
                    else wd_optimizer s ! i)"
    by auto
  show "length (wd_optimizer s') = length (wd_optimizer s)" using l s' by simp
  show "s' = s\<lparr>wd_optimizer := wd_optimizer s'\<rparr>" using s' by simp
  show "\<forall>i<length (wd_optimizer s).
           lr (wd_optimizer s' ! i) = lr (wd_optimizer s ! i) \<and>
           weight_decay (wd_optimizer s' ! i) =
             (let old_wd = weight_decay (wd_optimizer s ! i);
                  new_wd = max (old_wd * wd_factor s) (wd_min_lrs s ! i)
              in if old_wd \<noteq> 0 \<and> old_wd - new_wd > wd_eps s then new_wd else old_wd)"
    using n s' by (auto simp: reduce_wd_group_fields Let_def)
qed

lemma torch_reduce_lr_InrD:
  assumes "torch_reduce_lr s epoch = Inr s'"
  shows "length (wd_optimizer s) \<le> length (wd_min_lrs s)"
    and "s' = s\<lparr>wd_optimizer :=
                  map2 (reduce_group (wd_factor s) (wd_eps s)) (wd_min_lrs s) (wd_optimizer s)\<rparr>"
  using assms reduce_groups_InrD[of "wd_factor s" "wd_eps s" "wd_min_lrs s" "wd_optimizer s"]
  by (auto simp: torch_reduce_lr_def split: sum.splits)

lemma torch_is_better_last_epoch [simp]:
  "torch_is_better (s\<lparr>wd_last_epoch := n\<rparr>) a b = torch_is_better s a b"
  by (cases a; cases b; simp add: torch_is_better_def)

text \<open>The state after the comparison and the cooldown phase of a step.\<close>

lemma wd_decided:
  assumes "torch_is_better s metrics (wd_best s) = Inr better"
  shows "wd_record_round torch_is_better (s\<lparr>wd_last_epoch := n\<rparr>) metrics = Inr s0 \<Longrightarrow>
         wd_best (wd_cooldown_round torch_in_cooldown s0) = (if better then metrics else wd_best s) \<and>
         wd_num_bad_epochs (wd_cooldown_round torch_in_cooldown s0) =
           (if wd_cooldown_counter s > 0 then 0
            else if better then 0 else wd_num_bad_epochs s + 1) \<and>
         wd_cooldown_counter (wd_cooldown_round torch_in_cooldown s0) =
           (if wd_cooldown_counter s > 0 then wd_cooldown_counter s - 1
            else wd_cooldown_counter s) \<and>
         wd_optimizer (wd_cooldown_round torch_in_cooldown s0) = wd_optimizer s \<and>
         wd_patience (wd_cooldown_round torch_in_cooldown s0) = wd_patience s \<and>
         wd_cooldown (wd_cooldown_round torch_in_cooldown s0) = wd_cooldown s \<and>
         wd_factor (wd_cooldown_round torch_in_cooldown s0) = wd_factor s \<and>
         wd_eps (wd_cooldown_round torch_in_cooldown s0) = wd_eps s \<and>
         wd_min_lrs (wd_cooldown_round torch_in_cooldown s0) = wd_min_lrs s"
  using assms
  by (auto simp: wd_record_round_def wd_cooldown_round_def torch_in_cooldown_def)

lemma wd_step_facts:
  assumes st: "ReduceLRWDOnPlateau_step s metrics epoch_arg = Inr (res, s')"
  shows "res = ReturnsNone \<and>
      (\<exists>better. torch_is_better s metrics (wd_best s) = Inr better \<and>
         (let bad = (if wd_cooldown_counter s > 0 then 0
                     else if better then 0 else wd_num_bad_epochs s + 1);
              reduced = (bad > wd_patience s)
          in wd_best s' = (if better then metrics else wd_best s) \<and>
             wd_num_bad_epochs s' = (if reduced then 0 else bad) \<and>
             wd_cooldown_counter s' =
               (if reduced then wd_cooldown s
                else if wd_cooldown_counter s > 0 then wd_cooldown_counter s - 1
                else wd_cooldown_counter s) \<and>
             length (wd_optimizer s') = length (wd_optimizer s) \<and>
             (\<forall>i<length (wd_optimizer s).
                lr (wd_optimizer s' ! i) =
                  (if reduced then
                     (let old_lr = lr (wd_optimizer s ! i);
                          new_lr = max (old_lr * wd_factor s) (wd_min_lrs s ! i)
                      in if old_lr - new_lr > wd_eps s then new_lr else old_lr)
                   else lr (wd_optimizer s ! i)) \<and>
                weight_decay (wd_optimizer s' ! i) =
                  (if reduced then
                     (let old_wd = weight_decay (wd_optimizer s ! i);
                          new_wd = max (old_wd * wd_factor s) (wd_min_lrs s ! i)
                      in if old_wd \<noteq> 0 \<and> old_wd - new_wd > wd_eps s then new_wd else old_wd)
                   else weight_decay (wd_optimizer s ! i)))))"
proof -
  define epoch where "epoch = (case epoch_arg of None \<Rightarrow> wd_last_epoch s + 1 | Some e \<Rightarrow> e)"
  from st obtain s0 where
    rec: "wd_record_round torch_is_better (s\<lparr>wd_last_epoch := epoch\<rparr>) metrics = Inr s0"
    by (auto simp: ReduceLRWDOnPlateau_step_def wd_step_def Let_def epoch_def split: sum.splits)
  then obtain better where ib: "torch_is_better s metrics (wd_best s) = Inr better"
    by (auto simp: wd_record_round_def split: sum.splits)
  define s1 where "s1 = wd_cooldown_round torch_in_cooldown s0"
  define bad where "bad = (if wd_cooldown_counter s > 0 then 0
                     else if better then 0 else wd_num_bad_epochs s + 1)"
  note d = wd_decided[OF ib rec, folded s1_def bad_def]
  have st': "(if wd_num_bad_epochs s1 > wd_patience s1 then
                   (case torch_reduce_lr s1 epoch of
                      Inl e \<Rightarrow> Inl e
                    | Inr s2 \<Rightarrow>
                        (case reduce_weight_decay s2 of
                           Inl e \<Rightarrow> Inl e
                         | Inr s3 \<Rightarrow>
                             Inr (ReturnsNone,
                                  s3\<lparr>wd_cooldown_counter := wd_cooldown s3,
                                     wd_num_bad_epochs := 0\<rparr>)))
                 else Inr (ReturnsNone, s1)) = Inr (res, s')"
    using st
    unfolding ReduceLRWDOnPlateau_step_def wd_step_def Let_def epoch_def[symmetric] s1_def
    by (simp only: rec sum.case)
  have main: "res = ReturnsNone \<and>
             wd_best s' = (if better then metrics else wd_best s) \<and>
             wd_num_bad_epochs s' = (if bad > wd_patience s then 0 else bad) \<and>
             wd_cooldown_counter s' =
               (if bad > wd_patience s then wd_cooldown s
                else if wd_cooldown_counter s > 0 then wd_cooldown_counter s - 1
                else wd_cooldown_counter s) \<and>
             length (wd_optimizer s') = length (wd_optimizer s) \<and>
             (\<forall>i<length (wd_optimizer s).
                lr (wd_optimizer s' ! i) =
                  (if bad > wd_patience s then
                     (let old_lr = lr (wd_optimizer s ! i);
                          new_lr = max (old_lr * wd_factor s) (wd_min_lrs s ! i)
                      in if old_lr - new_lr > wd_eps s then new_lr else old_lr)
                   else lr (wd_optimizer s ! i)) \<and>
                weight_decay (wd_optimizer s' ! i) =
                  (if bad > wd_patience s then
                     (let old_wd = weight_decay (wd_optimizer s ! i);
                          new_wd = max (old_wd * wd_factor s) (wd_min_lrs s ! i)
                      in if old_wd \<noteq> 0 \<and> old_wd - new_wd > wd_eps s then new_wd else old_wd)
                   else weight_decay (wd_optimizer s ! i)))"
  proof (cases "bad > wd_patience s")
    case False
    with st' d have "res = ReturnsNone" "s' = s1" by simp_all
    with d False show ?thesis by simp
  next
    case True
    with st' d obtain s2 s3 where
      a: "torch_reduce_lr s1 epoch = Inr s2" and b: "reduce_weight_decay s2 = Inr s3"
      and r: "res = ReturnsNone"
      and s': "s' = s3\<lparr>wd_cooldown_counter := wd_cooldown s3, wd_num_bad_epochs := 0\<rparr>"
      by (auto split: sum.splits)
    note t = torch_reduce_lr_InrD[OF a]
    let ?gs2 = "map2 (reduce_group (wd_factor s) (wd_eps s)) (wd_min_lrs s) (wd_optimizer s)"
    have s2: "s2 = s1\<lparr>wd_optimizer := ?gs2\<rparr>" using t(2) d by simp
    have len: "length (wd_optimizer s) \<le> length (wd_min_lrs s)" using t(1) d by simp
    have g2: "wd_optimizer s2 = ?gs2" "wd_factor s2 = wd_factor s" "wd_eps s2 = wd_eps s"
      "wd_min_lrs s2 = wd_min_lrs s" "wd_best s2 = wd_best s1" "wd_cooldown s2 = wd_cooldown s"
      using s2 d by simp_all
    have l2: "length (wd_optimizer s2) = length (wd_optimizer s)" using g2(1) len by simp
    have n2: "\<And>i. i < length (wd_optimizer s) \<Longrightarrow>
        wd_optimizer s2 ! i =
          reduce_group (wd_factor s) (wd_eps s) (wd_min_lrs s ! i) (wd_optimizer s ! i)"
      using g2(1) len by simp
    note w = reduce_weight_decay_InrD[OF b]
    have s3a: "wd_best s3 = wd_best s2" by (subst w(3)) simp
    have s3b: "wd_cooldown s3 = wd_cooldown s2" by (subst w(3)) simp
    note s3 = s3a s3b
    have "\<forall>i<length (wd_optimizer s).
                lr (wd_optimizer s' ! i) =
                     (let old_lr = lr (wd_optimizer s ! i);
                          new_lr = max (old_lr * wd_factor s) (wd_min_lrs s ! i)
                      in if old_lr - new_lr > wd_eps s then new_lr else old_lr) \<and>
                weight_decay (wd_optimizer s' ! i) =
                     (let old_wd = weight_decay (wd_optimizer s ! i);
                          new_wd = max (old_wd * wd_factor s) (wd_min_lrs s ! i)
                      in if old_wd \<noteq> 0 \<and> old_wd - new_wd > wd_eps s then new_wd else old_wd)"
      using w(2) l2 n2 g2 s' by (auto simp: lr_reduce_group Let_def)
    moreover have "length (wd_optimizer s') = length (wd_optimizer s)"
      using w(1) l2 s' by simp
    ultimately show ?thesis using True r s' s3 g2 d by simp
  qed
  show ?thesis using ib main unfolding Let_def bad_def by blast
qed

lemma wd_step_returns:
  assumes ib: "torch_is_better s metrics (wd_best s) = Inr better"
    and len: "length (wd_optimizer s) \<le> length (wd_min_lrs s)"
  shows "\<exists>s'. ReduceLRWDOnPlateau_step s metrics epoch_arg = Inr (ReturnsNone, s')"
proof -
  define epoch where "epoch = (case epoch_arg of None \<Rightarrow> wd_last_epoch s + 1 | Some e \<Rightarrow> e)"
  obtain s0 where
    rec: "wd_record_round torch_is_better (s\<lparr>wd_last_epoch := epoch\<rparr>) metrics = Inr s0"
    using ib by (simp add: wd_record_round_def)
  define s1 where "s1 = wd_cooldown_round torch_in_cooldown s0"
  note d = wd_decided[OF ib rec, folded s1_def]
  have st: "ReduceLRWDOnPlateau_step s metrics epoch_arg =
              (if wd_num_bad_epochs s1 > wd_patience s1 then
                   (case torch_reduce_lr s1 epoch of
                      Inl e \<Rightarrow> Inl e
                    | Inr s2 \<Rightarrow>
                        (case reduce_weight_decay s2 of
                           Inl e \<Rightarrow> Inl e
                         | Inr s3 \<Rightarrow>
                             Inr (ReturnsNone,
                                  s3\<lparr>wd_cooldown_counter := wd_cooldown s3,
                                     wd_num_bad_epochs := 0\<rparr>)))
                 else Inr (ReturnsNone, s1))"
    unfolding ReduceLRWDOnPlateau_step_def wd_step_def Let_def epoch_def[symmetric] s1_def
    by (simp only: rec sum.case)
  let ?gs2 = "map2 (reduce_group (wd_factor s) (wd_eps s)) (wd_min_lrs s) (wd_optimizer s)"
  have a: "torch_reduce_lr s1 epoch = Inr (s1\<lparr>wd_optimizer := ?gs2\<rparr>)"
    using reduce_groups_Inr[OF len, of "wd_factor s" "wd_eps s"] d
    by (simp add: torch_reduce_lr_def)
  have "length ?gs2 \<le> length (wd_min_lrs s)" using len by simp
  from reduce_wd_groups_returns[OF this, of "wd_factor s" "wd_eps s"] obtain gs3 where
    "reduce_wd_groups (wd_factor s) (wd_eps s) (wd_min_lrs s) ?gs2 = Inr gs3" by blast
  then have b: "\<exists>s3. reduce_weight_decay (s1\<lparr>wd_optimizer := ?gs2\<rparr>) = Inr s3"
    using d by (simp add: reduce_weight_decay_def)
  show ?thesis using st a b by auto
qed

text \<open>A step of \<^verbatim>\<open>AnnealOnPlateau\<close> without auxiliary metric, in the same terms.\<close>

lemma step_plain:
  assumes "step c (PyNum x) PyNone = Inr (r, c')"
  shows "r \<longleftrightarrow>
           (if cooldown_counter c > 0 then 0
            else if primary_better c x then 0 else num_bad_epochs c + 1) > effective_patience c"
    and "best c' = (if primary_better c x then x else best c)"
    and "num_bad_epochs c' =
           (if r then 0
            else if cooldown_counter c > 0 then 0
            else if primary_better c x then 0 else num_bad_epochs c + 1)"
    and "cooldown_counter c' =
           (if r then cooldown c
            else if cooldown_counter c > 0 then cooldown_counter c - 1
            else cooldown_counter c)"
proof -
  from assms obtain current better c2 where
    pf: "py_float (PyNum x) = Inr current" and ib: "is_better c current PyNone = Inr better"
    and rr: "reduce_round (cooldown_round
           (record_round (c\<lparr>last_epoch := last_epoch c + 1\<rparr>) current PyNone better)) = Inr (r, c2)"
    and c': "c' = c2\<lparr>last_lr := Some (map lr (optimizer c2))\<rparr>"
    by (rule stepE)
  from pf have cur: "current = x" by simp
  from ib cur have better: "better = primary_better c x" by (simp add: is_better_def)
  let ?c1 = "cooldown_round (record_round (c\<lparr>last_epoch := last_epoch c + 1\<rparr>) x PyNone
               (primary_better c x))"
  have mid: "best ?c1 = (if primary_better c x then x else best c)"
    "num_bad_epochs ?c1 =
       (if cooldown_counter c > 0 then 0
        else if primary_better c x then 0 else num_bad_epochs c + 1)"
    "cooldown_counter ?c1 =
       (if cooldown_counter c > 0 then cooldown_counter c - 1 else cooldown_counter c)"
    "cooldown ?c1 = cooldown c" "effective_patience ?c1 = effective_patience c"
    by (simp_all add: cooldown_round_def record_round_def in_cooldown_def)
  from rr cur better have rr': "reduce_round ?c1 = Inr (r, c2)" by simp
  show "r \<longleftrightarrow>
           (if cooldown_counter c > 0 then 0
            else if primary_better c x then 0 else num_bad_epochs c + 1) > effective_patience c"
    using reduce_round_result(4)[OF rr'] mid by simp
  show "best c' = (if primary_better c x then x else best c)"
    using reduce_round_keeps(1)[OF rr'] mid c' by simp
  show "num_bad_epochs c' =
           (if r then 0
            else if cooldown_counter c > 0 then 0
            else if primary_better c x then 0 else num_bad_epochs c + 1)"
    using reduce_round_result(1)[OF rr'] mid c' by simp
  show "cooldown_counter c' =
           (if r then cooldown c
            else if cooldown_counter c > 0 then cooldown_counter c - 1
            else cooldown_counter c)"
    using reduce_round_result(2)[OF rr'] mid c' by simp
qed

lemma flt_scale_one [simp]: "flt_scale y 1 = y"
  by (cases y) simp_all

lemma flt_shift_zero [simp]: "flt_shift y 0 = y"
  by (cases y) simp_all

lemma torch_is_better_strict:
  assumes "wd_threshold s = 0" "wd_threshold_mode s = ''rel'' \<or> wd_threshold_mode s = ''abs''"
    "wd_mode s = mode c" "mode c = ''min'' \<or> mode c = ''max''" "wd_best s = PyNum (best c)"
  shows "torch_is_better s (PyNum x) (wd_best s) = Inr (primary_better c x)"
  using assms by (auto simp: torch_is_better_def primary_better_def)

lemma same_decision:
  assumes st: "step c (PyNum x) PyNone = Inr (r, c')"
    and th: "wd_threshold s = 0" "wd_threshold_mode s = ''rel'' \<or> wd_threshold_mode s = ''abs''"
    and md: "wd_mode s = mode c" "mode c = ''min'' \<or> mode c = ''max''"
    and bs: "wd_best s = PyNum (best c)"
    and cnt: "wd_num_bad_epochs s = num_bad_epochs c" "wd_cooldown_counter s = cooldown_counter c"
      "wd_cooldown s = cooldown c" "wd_patience s = effective_patience c"
    and par: "wd_factor s = factor c" "wd_eps s = eps c" "wd_min_lrs s = min_lrs c"
    and lrs: "map lr (wd_optimizer s) = map lr (optimizer c)"
  shows "\<exists>s'. ReduceLRWDOnPlateau_step s (PyNum x) None = Inr (ReturnsNone, s') \<and>
           wd_best s' = PyNum (best c') \<and> wd_num_bad_epochs s' = num_bad_epochs c' \<and>
           wd_cooldown_counter s' = cooldown_counter c' \<and>
           map lr (wd_optimizer s') = map lr (optimizer c')"
proof -
  define bad where "bad = (if cooldown_counter c > 0 then 0
            else if primary_better c x then 0 else num_bad_epochs c + 1)"
  note p = step_plain[OF st, folded bad_def]
  note o = step_optimizer[OF st]
  have ib: "torch_is_better s (PyNum x) (wd_best s) = Inr (primary_better c x)"
    using torch_is_better_strict[OF th md bs] .
  have leq: "length (wd_optimizer s) = length (optimizer c)"
    using lrs by (metis length_map)
  have nth: "\<And>i. i < length (optimizer c) \<Longrightarrow> lr (wd_optimizer s ! i) = lr (optimizer c ! i)"
    using lrs leq by (metis nth_map)
  show ?thesis
  proof (cases r)
    case False
    have "\<exists>s'. ReduceLRWDOnPlateau_step s (PyNum x) None = Inr (ReturnsNone, s') \<and>
            wd_optimizer s' = wd_optimizer s \<and> wd_best s' = PyNum (best c') \<and>
            wd_num_bad_epochs s' = num_bad_epochs c' \<and>
            wd_cooldown_counter s' = cooldown_counter c'"
      using False p ib cnt bs
      by (auto simp: ReduceLRWDOnPlateau_step_def wd_step_def wd_record_round_def
          wd_cooldown_round_def torch_in_cooldown_def Let_def bad_def)
    moreover have "optimizer c' = optimizer c" using o(1) False by simp
    ultimately show ?thesis using lrs by auto
  next
    case True
    then have len: "length (wd_optimizer s) \<le> length (wd_min_lrs s)"
      using o(2) leq par by simp
    from wd_step_returns[OF ib len] obtain s' where
      s': "ReduceLRWDOnPlateau_step s (PyNum x) None = Inr (ReturnsNone, s')" by blast
    from wd_step_facts[OF s'] obtain better where
      ib': "torch_is_better s (PyNum x) (wd_best s) = Inr better"
      and f: "(let bad = (if wd_cooldown_counter s > 0 then 0
                     else if better then 0 else wd_num_bad_epochs s + 1);
              reduced = (bad > wd_patience s)
          in wd_best s' = (if better then PyNum x else wd_best s) \<and>
             wd_num_bad_epochs s' = (if reduced then 0 else bad) \<and>
             wd_cooldown_counter s' =
               (if reduced then wd_cooldown s
                else if wd_cooldown_counter s > 0 then wd_cooldown_counter s - 1
                else wd_cooldown_counter s) \<and>
             length (wd_optimizer s') = length (wd_optimizer s) \<and>
             (\<forall>i<length (wd_optimizer s).
                lr (wd_optimizer s' ! i) =
                  (if reduced then
                     (let old_lr = lr (wd_optimizer s ! i);
                          new_lr = max (old_lr * wd_factor s) (wd_min_lrs s ! i)
                      in if old_lr - new_lr > wd_eps s then new_lr else old_lr)
                   else lr (wd_optimizer s ! i)) \<and>
                weight_decay (wd_optimizer s' ! i) =
                  (if reduced then
                     (let old_wd = weight_decay (wd_optimizer s ! i);
                          new_wd = max (old_wd * wd_factor s) (wd_min_lrs s ! i)
                      in if old_wd \<noteq> 0 \<and> old_wd - new_wd > wd_eps s then new_wd else old_wd)
                   else weight_decay (wd_optimizer s ! i))))"
      by blast
    from ib ib' have better: "better = primary_better c x" by simp
    have red: "bad > wd_patience s" using True p(1) cnt by simp
    have eqbad: "(if wd_cooldown_counter s > 0 then 0
                  else if better then 0 else wd_num_bad_epochs s + 1) = bad"
      using cnt better by (simp add: bad_def)
    have f2: "wd_best s' = (if better then PyNum x else wd_best s) \<and>
             wd_num_bad_epochs s' = 0 \<and>
             wd_cooldown_counter s' = wd_cooldown s \<and>
             length (wd_optimizer s') = length (wd_optimizer s) \<and>
             (\<forall>i<length (wd_optimizer s).
                lr (wd_optimizer s' ! i) =
                     (let old_lr = lr (wd_optimizer s ! i);
                          new_lr = max (old_lr * wd_factor s) (wd_min_lrs s ! i)
                      in if old_lr - new_lr > wd_eps s then new_lr else old_lr))"
      using f[unfolded Let_def eqbad] red by (simp add: Let_def)
    have flds: "wd_best s' = PyNum (best c')" "wd_num_bad_epochs s' = num_bad_epochs c'"
      "wd_cooldown_counter s' = cooldown_counter c'"
      "length (wd_optimizer s') = length (optimizer c)"
      using f2 better True p(2,3,4) cnt bs leq by simp_all
    have co: "optimizer c' =
        map2 (reduce_group (factor c) (eps c)) (min_lrs c) (optimizer c)"
      using o(1) True by simp
    have lc: "length (optimizer c') = length (optimizer c)"
      using co o(2) True by simp
    have "\<And>i. i < length (optimizer c) \<Longrightarrow>
            lr (wd_optimizer s' ! i) = lr (optimizer c' ! i)"
    proof -
      fix i assume i: "i < length (optimizer c)"
      have "optimizer c' ! i = reduce_group (factor c) (eps c) (min_lrs c ! i) (optimizer c ! i)"
        using co o(2) True i by simp
      then have "lr (optimizer c' ! i) =
          (let old_lr = lr (optimizer c ! i); new_lr = max (old_lr * factor c) (min_lrs c ! i)
           in if old_lr - new_lr \<le> eps c then old_lr else new_lr)"
        by (simp add: lr_reduce_group)
      moreover have "lr (wd_optimizer s' ! i) =
          (let old_lr = lr (wd_optimizer s ! i);
               new_lr = max (old_lr * wd_factor s) (wd_min_lrs s ! i)
           in if old_lr - new_lr > wd_eps s then new_lr else old_lr)"
        using f2 i leq by simp
      ultimately show "lr (wd_optimizer s' ! i) = lr (optimizer c' ! i)"
        using nth[OF i] par by (simp add: Let_def not_le)
    qed
    then have "map lr (wd_optimizer s') = map lr (optimizer c')"
      using flds(4) lc by (simp add: list_eq_iff_nth_eq)
    with s' flds show ?thesis by blast
  qed
qed

text \<open>
  C8 (as amended). \<^verbatim>\<open>ReduceLRWDOnPlateau.step\<close> returns \<^verbatim>\<open>None\<close>, not a boolean. It
  runs the plateau decision of \<^verbatim>\<open>AnnealOnPlateau\<close> (an improvement zeroes the counter of
  bad rounds, any other round adds one, a round in cooldown decrements the cooldown
  counter and zeroes the counter of bad rounds, and a reduction fires when the counter
  exceeds the patience), with the improvement judged by the inherited comparison, which
  has a threshold and no auxiliary metric. When the reduction fires, the same call
  reduces the learning rate of every parameter group by the rule of \<^verbatim>\<open>_reduce_lr\<close> and
  then gives each parameter group whose weight decay is not 0 the weight decay
  \<open>max (old_wd * factor) (min_lrs ! i)\<close>, written only when \<open>old_wd - new_wd > eps\<close>;
  it reloads the cooldown counter and zeroes the counter of bad rounds. Otherwise no
  parameter group changes. With threshold 0, a round without auxiliary metric that
  \<^verbatim>\<open>AnnealOnPlateau.step\<close> completes from the same counters, best metric, patience in
  force and learning rates is completed by this step too, with the same decision: the
  same best metric, counters and learning rates afterwards.
\<close>

theorem wd_step_same_decision_and_weight_decay:
  "(ReduceLRWDOnPlateau_step s metrics epoch_arg = Inr (res, s') \<longrightarrow>
      res = ReturnsNone \<and>
      (\<exists>better. torch_is_better s metrics (wd_best s) = Inr better \<and>
         (let bad = (if wd_cooldown_counter s > 0 then 0
                     else if better then 0 else wd_num_bad_epochs s + 1);
              reduced = (bad > wd_patience s)
          in wd_best s' = (if better then metrics else wd_best s) \<and>
             wd_num_bad_epochs s' = (if reduced then 0 else bad) \<and>
             wd_cooldown_counter s' =
               (if reduced then wd_cooldown s
                else if wd_cooldown_counter s > 0 then wd_cooldown_counter s - 1
                else wd_cooldown_counter s) \<and>
             length (wd_optimizer s') = length (wd_optimizer s) \<and>
             (\<forall>i<length (wd_optimizer s).
                lr (wd_optimizer s' ! i) =
                  (if reduced then
                     (let old_lr = lr (wd_optimizer s ! i);
                          new_lr = max (old_lr * wd_factor s) (wd_min_lrs s ! i)
                      in if old_lr - new_lr > wd_eps s then new_lr else old_lr)
                   else lr (wd_optimizer s ! i)) \<and>
                weight_decay (wd_optimizer s' ! i) =
                  (if reduced then
                     (let old_wd = weight_decay (wd_optimizer s ! i);
                          new_wd = max (old_wd * wd_factor s) (wd_min_lrs s ! i)
                      in if old_wd \<noteq> 0 \<and> old_wd - new_wd > wd_eps s then new_wd else old_wd)
                   else weight_decay (wd_optimizer s ! i)))))) \<and>
   (step c (PyNum x) PyNone = Inr (r, c') \<and>
    wd_threshold t = 0 \<and> (wd_threshold_mode t = ''rel'' \<or> wd_threshold_mode t = ''abs'') \<and>
    wd_mode t = mode c \<and> (mode c = ''min'' \<or> mode c = ''max'') \<and>
    wd_best t = PyNum (best c) \<and> wd_num_bad_epochs t = num_bad_epochs c \<and>
    wd_cooldown_counter t = cooldown_counter c \<and> wd_cooldown t = cooldown c \<and>
    wd_patience t = effective_patience c \<and>
    wd_factor t = factor c \<and> wd_eps t = eps c \<and> wd_min_lrs t = min_lrs c \<and>
    map lr (wd_optimizer t) = map lr (optimizer c)
    \<longrightarrow>
    (\<exists>t'. ReduceLRWDOnPlateau_step t (PyNum x) None = Inr (ReturnsNone, t') \<and>
           wd_best t' = PyNum (best c') \<and> wd_num_bad_epochs t' = num_bad_epochs c' \<and>
           wd_cooldown_counter t' = cooldown_counter c' \<and>
           map lr (wd_optimizer t') = map lr (optimizer c')))"
proof (intro conjI impI)
  assume "ReduceLRWDOnPlateau_step s metrics epoch_arg = Inr (res, s')"
  from wd_step_facts[OF this]
  show "res = ReturnsNone"
    and "\<exists>better. torch_is_better s metrics (wd_best s) = Inr better \<and>
         (let bad = (if wd_cooldown_counter s > 0 then 0
                     else if better then 0 else wd_num_bad_epochs s + 1);
              reduced = (bad > wd_patience s)
          in wd_best s' = (if better then metrics else wd_best s) \<and>
             wd_num_bad_epochs s' = (if reduced then 0 else bad) \<and>
             wd_cooldown_counter s' =
               (if reduced then wd_cooldown s
                else if wd_cooldown_counter s > 0 then wd_cooldown_counter s - 1
                else wd_cooldown_counter s) \<and>
             length (wd_optimizer s') = length (wd_optimizer s) \<and>
             (\<forall>i<length (wd_optimizer s).
                lr (wd_optimizer s' ! i) =
                  (if reduced then
                     (let old_lr = lr (wd_optimizer s ! i);
                          new_lr = max (old_lr * wd_factor s) (wd_min_lrs s ! i)
                      in if old_lr - new_lr > wd_eps s then new_lr else old_lr)
                   else lr (wd_optimizer s ! i)) \<and>
                weight_decay (wd_optimizer s' ! i) =
                  (if reduced then
                     (let old_wd = weight_decay (wd_optimizer s ! i);
                          new_wd = max (old_wd * wd_factor s) (wd_min_lrs s ! i)
                      in if old_wd \<noteq> 0 \<and> old_wd - new_wd > wd_eps s then new_wd else old_wd)
                   else weight_decay (wd_optimizer s ! i))))"
    by blast+
next
  assume h: "step c (PyNum x) PyNone = Inr (r, c') \<and>
    wd_threshold t = 0 \<and> (wd_threshold_mode t = ''rel'' \<or> wd_threshold_mode t = ''abs'') \<and>
    wd_mode t = mode c \<and> (mode c = ''min'' \<or> mode c = ''max'') \<and>
    wd_best t = PyNum (best c) \<and> wd_num_bad_epochs t = num_bad_epochs c \<and>
    wd_cooldown_counter t = cooldown_counter c \<and> wd_cooldown t = cooldown c \<and>
    wd_patience t = effective_patience c \<and>
    wd_factor t = factor c \<and> wd_eps t = eps c \<and> wd_min_lrs t = min_lrs c \<and>
    map lr (wd_optimizer t) = map lr (optimizer c)"
  then show "\<exists>t'. ReduceLRWDOnPlateau_step t (PyNum x) None = Inr (ReturnsNone, t') \<and>
           wd_best t' = PyNum (best c') \<and> wd_num_bad_epochs t' = num_bad_epochs c' \<and>
           wd_cooldown_counter t' = cooldown_counter c' \<and>
           map lr (wd_optimizer t') = map lr (optimizer c')"
    using same_decision[of c x r c' t] by blast
qed

lemmas wd_eval = ReduceLRWDOnPlateau_step_def wd_step_def wd_record_round_def
  wd_cooldown_round_def torch_is_better_def torch_in_cooldown_def torch_reduce_lr_def
  reduce_weight_decay_def reduce_wd_group_def reduce_group_def py_max_def flt_gt_def Let_def

lemma example_wd_step:
  "ReduceLRWDOnPlateau_step example_wd (PyNum (Fin 1)) None = Inr (ReturnsNone, example_wd_reduced)"
  by (simp add: wd_eval example_wd_def example_wd_reduced_def)

lemma example_keen_step:
  "step example_keen (PyNum (Fin 1)) PyNone = Inr (True, example_keen_reduced)"
  by (simp add: step_eval example_keen_def example_keen_reduced_def)

theorem wd_step_same_decision_and_weight_decay_witness:
  "ReduceLRWDOnPlateau_step example_wd (PyNum (Fin 1)) None = Inr (ReturnsNone, example_wd_reduced) \<and>
   lr (wd_optimizer example_wd_reduced ! 0) = 1/2 \<and>
   weight_decay (wd_optimizer example_wd_reduced ! 0) = 1/2 \<and>
   wd_num_bad_epochs example_wd_reduced = 0 \<and>
   (\<exists>t'. ReduceLRWDOnPlateau_step example_wd_plain (PyNum (Fin 1)) None = Inr (ReturnsNone, t') \<and>
         wd_best t' = PyNum (Fin 1) \<and> wd_num_bad_epochs t' = 0 \<and>
         wd_cooldown_counter t' = 0 \<and> map lr (wd_optimizer t') = [1/2])"
proof -
  have same: "\<exists>t'. ReduceLRWDOnPlateau_step example_wd_plain (PyNum (Fin 1)) None =
                  Inr (ReturnsNone, t') \<and>
         wd_best t' = PyNum (Fin 1) \<and> wd_num_bad_epochs t' = 0 \<and>
         wd_cooldown_counter t' = 0 \<and> map lr (wd_optimizer t') = [1/2]"
    using wd_step_same_decision_and_weight_decay
      [where c = example_keen and x = "Fin 1" and r = True and c' = example_keen_reduced
         and t = example_wd_plain, THEN conjunct2] example_keen_step
    by (simp add: example_keen_def example_keen_reduced_def example_wd_plain_def example_wd_def)
  have "lr (wd_optimizer example_wd_reduced ! 0) = 1/2 \<and>
        weight_decay (wd_optimizer example_wd_reduced ! 0) = 1/2 \<and>
        wd_num_bad_epochs example_wd_reduced = 0"
    using wd_step_same_decision_and_weight_decay
      [where s = example_wd and metrics = "PyNum (Fin 1)" and epoch_arg = None
         and res = ReturnsNone and s' = example_wd_reduced,
       THEN conjunct1, rule_format, OF example_wd_step]
    by (auto simp: example_wd_def torch_is_better_def Let_def)
  with example_wd_step same show ?thesis by simp
qed

text \<open>
  The claim as written fails in three ways. The step returns \<^verbatim>\<open>None\<close> where it reduces
  (first three lines). It does not run the same plateau decision: from the same best
  metric 1.0, counters, patience 0 and learning rate, \<^verbatim>\<open>AnnealOnPlateau\<close> takes the
  metric 0.99995 for an improvement and reduces nothing, while the default threshold
  \<open>1e-4\<close> makes this step count a bad round and reduce; and a tie with a better auxiliary
  metric is an improvement for \<^verbatim>\<open>AnnealOnPlateau\<close>, while this step takes no auxiliary
  metric. And a parameter group with weight decay 0 is skipped: with \<open>eps = -1\<close> and floor
  0.5 the rule of the claim would write 0.5, and the weight decay stays 0.
\<close>

theorem wd_step_returns_none_counterexample:
  "ReduceLRWDOnPlateau_step example_wd (PyNum (Fin 1)) None = Inr (ReturnsNone, example_wd_reduced) \<and>
   ReturnsNone \<noteq> ReturnsBool True \<and>
   map weight_decay (wd_optimizer example_wd) = [1] \<and>
   map weight_decay (wd_optimizer example_wd_reduced) = [1/2] \<and>
   map lr (wd_optimizer example_wd_reduced) = [1/2] \<and>
   wd_best example_wd = PyNum (best example_keen) \<and>
   wd_num_bad_epochs example_wd = num_bad_epochs example_keen \<and>
   wd_cooldown_counter example_wd = cooldown_counter example_keen \<and>
   wd_patience example_wd = effective_patience example_keen \<and>
   map lr (wd_optimizer example_wd) = map lr (optimizer example_keen) \<and>
   step example_keen (PyNum (Fin (19999/20000))) PyNone
     = Inr (False, example_keen\<lparr>best := Fin (19999/20000), last_epoch := 2\<rparr>) \<and>
   ReduceLRWDOnPlateau_step example_wd (PyNum (Fin (19999/20000))) None
     = Inr (ReturnsNone, example_wd_reduced) \<and>
   step example_keen (PyNum (Fin 1)) (PyNum (Fin (1/2)))
     = Inr (False, example_keen\<lparr>best_aux := PyNum (Fin (1/2)), last_epoch := 2\<rparr>) \<and>
   ReduceLRWDOnPlateau_step example_wd_zero (PyNum (Fin 1)) None
     = Inr (ReturnsNone, example_wd_zero_reduced) \<and>
   map weight_decay (wd_optimizer example_wd_zero) = [0] \<and>
   map weight_decay (wd_optimizer example_wd_zero_reduced) = [0] \<and>
   (0 :: real) - max (0 * (1/2)) (1/2) > - 1"
  by (simp add: wd_eval step_eval example_wd_def example_wd_reduced_def example_keen_def
      example_wd_zero_def example_wd_zero_reduced_def)

section \<open>The exponential schedule\<close>

lemma flt_le_refl_Fin: "flt_le (Fin a) (Fin a)"
  by simp

lemma flt_le_Fin_zero: "flt_le (Fin 0) v \<Longrightarrow> v = PInf \<or> (\<exists>r. v = Fin r \<and> 0 \<le> r)"
  by (cases v) simp_all

lemma flt_le_Fin_FinD: "flt_le v (Fin b) \<Longrightarrow> flt_le (Fin a) v \<Longrightarrow> \<exists>r. v = Fin r \<and> a \<le> r \<and> r \<le> b"
  by (cases v) simp_all

lemma sound_round_mono:
  "sound_arith fa \<Longrightarrow> x \<le> y \<Longrightarrow> flt_le (fl_round fa x) (fl_round fa y)"
  by (simp add: sound_arith_def)

lemma sound_round_zero: "sound_arith fa \<Longrightarrow> fl_round fa 0 = Fin 0"
  by (simp add: sound_arith_def)

lemma sound_round_one: "sound_arith fa \<Longrightarrow> fl_round fa 1 = Fin 1"
  by (simp add: sound_arith_def)

lemma sound_pow_nonneg: "sound_arith fa \<Longrightarrow> 0 < x \<Longrightarrow> flt_le (Fin 0) (fl_pow fa x y)"
  by (simp add: sound_arith_def)

lemma sound_pow_zero: "sound_arith fa \<Longrightarrow> 0 < x \<Longrightarrow> fl_pow fa x 0 = Fin 1"
  by (simp add: sound_arith_def)

lemma sound_pow_one:
  "sound_arith fa \<Longrightarrow> 0 < x \<Longrightarrow> fl_round fa x = Fin x \<Longrightarrow> fl_pow fa x 1 = Fin x"
  by (simp add: sound_arith_def)

lemma sound_pow_antitone:
  "sound_arith fa \<Longrightarrow> 0 < x \<Longrightarrow> x < 1 \<Longrightarrow> y \<le> y' \<Longrightarrow>
   flt_le (fl_pow fa x y') (fl_pow fa x y)"
  unfolding sound_arith_def by blast

text \<open>The quotient of a rate by a larger rate rounds to a float between 0 and 1.\<close>

lemma ratio_unit_interval:
  assumes "sound_arith fa" "0 < e" "e < b"
  shows "\<exists>r. py_fdiv fa e b = Inr (Fin r) \<and> 0 \<le> r \<and> r \<le> 1"
proof -
  have "0 \<le> e / b" "e / b \<le> 1" using assms by simp_all
  then have "flt_le (fl_round fa 0) (fl_round fa (e / b))"
    "flt_le (fl_round fa (e / b)) (fl_round fa 1)"
    using assms(1) by (simp_all add: sound_round_mono)
  then have "flt_le (Fin 0) (fl_round fa (e / b))" "flt_le (fl_round fa (e / b)) (Fin 1)"
    using assms(1) by (simp_all add: sound_round_zero sound_round_one)
  then obtain r where "fl_round fa (e / b) = Fin r" "0 \<le> r" "r \<le> 1"
    using flt_le_Fin_FinD by blast
  then show ?thesis using assms by (simp add: py_fdiv_def)
qed

text \<open>The power of a base between 0 and 1, for an exponent that is not negative.\<close>

lemma pow_unit_interval:
  assumes "sound_arith fa" "0 \<le> r" "r \<le> 1" "0 \<le> q"
  shows "\<exists>v. py_pow fa (Fin r) q = Inr (Fin v) \<and> 0 \<le> v \<and> v \<le> 1"
proof (cases "q = 0 \<or> r = 0 \<or> r = 1")
  case True
  then show ?thesis using assms by (auto simp add: py_pow_def)
next
  case False
  then have r: "0 < r" "r < 1" and q: "0 < q" using assms by simp_all
  have "flt_le (fl_pow fa r q) (fl_pow fa r 0)"
    using assms(1) r q by (simp add: sound_pow_antitone)
  then have "flt_le (fl_pow fa r q) (Fin 1)"
    using assms(1) r by (simp add: sound_pow_zero)
  moreover have "flt_le (Fin 0) (fl_pow fa r q)"
    using assms(1) r by (simp add: sound_pow_nonneg)
  ultimately obtain v where "fl_pow fa r q = Fin v" "0 \<le> v" "v \<le> 1"
    using flt_le_Fin_FinD by blast
  then show ?thesis using r q by (simp add: py_pow_def)
qed

text \<open>The power of a base between 0 and 1 does not grow with the exponent.\<close>

lemma pow_antitone:
  assumes "sound_arith fa" "0 \<le> r" "r \<le> 1" "q \<le> q'"
    and "py_pow fa (Fin r) q = Inr p" "py_pow fa (Fin r) q' = Inr p'"
  shows "\<exists>v v'. p = Fin v \<and> p' = Fin v' \<and> 0 \<le> v' \<and> v' \<le> v"
proof (cases "r = 0 \<or> r = 1")
  case True
  then show ?thesis using assms(4-6) by (auto simp add: py_pow_def split: if_splits)
next
  case False
  then have r: "0 < r" "r < 1" using assms by simp_all
  have nn: "\<And>y. \<exists>v. (fl_pow fa r y = Fin v \<and> 0 \<le> v) \<or> fl_pow fa r y = PInf"
    using flt_le_Fin_zero [OF sound_pow_nonneg [OF assms(1) r(1)]] by blast
  define P where "P y = (if y = 0 then Fin 1 else fl_pow fa r y)" for y
  have P0: "\<And>y. P y = fl_pow fa r y"
    using assms(1) r by (simp add: P_def sound_pow_zero)
  have le: "flt_le (P q') (P q)"
    unfolding P0 using assms(1) r assms(4) by (simp add: sound_pow_antitone)
  have pq: "w = P y \<and> (\<exists>v. w = Fin v \<and> 0 \<le> v)" if "py_pow fa (Fin r) y = Inr w" for y w
  proof (cases "y = 0")
    case True
    then show ?thesis using that by (auto simp add: py_pow_def P_def)
  next
    case False
    from nn [of y] obtain v where "(fl_pow fa r y = Fin v \<and> 0 \<le> v) \<or> fl_pow fa r y = PInf" ..
    then show ?thesis
    proof
      assume "fl_pow fa r y = Fin v \<and> 0 \<le> v"
      then show ?thesis using that False r by (auto simp add: py_pow_def P_def)
    next
      assume "fl_pow fa r y = PInf"
      then show ?thesis using that False r by (simp add: py_pow_def P_def)
    qed
  qed
  from pq [OF assms(5)] pq [OF assms(6)] le show ?thesis by auto
qed

lemma fmul_antitone:
  assumes "sound_arith fa" "0 < b" "v' \<le> v"
  shows "flt_le (py_fmul fa b (Fin v')) (py_fmul fa b (Fin v))"
  using assms by (simp add: py_fmul_def sound_round_mono)

text \<open>One group: the rate does not grow with the exponent.\<close>

lemma one_rate_antitone:
  assumes "sound_arith fa" "0 < e" "e < b" "q \<le> q'"
    and "py_fdiv fa e b = Inr ratio"
    and "py_pow fa ratio q = Inr p" "py_pow fa ratio q' = Inr p'"
  shows "flt_le (py_fmul fa b p') (py_fmul fa b p)"
proof -
  obtain r where r: "ratio = Fin r" "0 \<le> r" "r \<le> 1"
    using ratio_unit_interval [OF assms(1-3)] assms(5) by auto
  obtain v v' where "p = Fin v" "p' = Fin v'" "v' \<le> v"
    using pow_antitone [OF assms(1) r(2,3) assms(4)] assms(6,7) r(1) by blast
  then show ?thesis using assms(1-3) by (simp add: fmul_antitone)
qed

text \<open>What \<^verbatim>\<open>anneal_all\<close> returns, group by group.\<close>

lemma anneal_all_spec:
  "anneal_all fa e q bs = Inr rs \<longleftrightarrow>
   list_all2 (\<lambda>b r. \<exists>ratio p. py_fdiv fa e b = Inr ratio \<and> py_pow fa ratio q = Inr p \<and>
                      r = py_fmul fa b p) bs rs"
proof (induction bs arbitrary: rs)
  case Nil
  then show ?case by auto
next
  case (Cons b bs)
  show ?case
  proof (cases rs)
    case Nil
    then show ?thesis by (auto split: sum.splits)
  next
    case (Cons r rs')
    then show ?thesis using Cons.IH [of rs'] by (auto split: sum.splits)
  qed
qed

lemma get_lr_unfold:
  "get_lr fa \<lparr> end_lr = e, iterations = n, exp_last_epoch = s, base_lrs = bs \<rparr> =
     (case py_int_div fa (s + 1) n of Inl x \<Rightarrow> Inl x | Inr pct \<Rightarrow> anneal_all fa e pct bs)"
  by (cases "py_int_div fa (s + 1) n") (simp_all add: get_lr_def)

lemma get_lr_refines:
  "get_lr fa \<lparr> end_lr = e, iterations = n, exp_last_epoch = s, base_lrs = bs \<rparr> = Inr rs \<longleftrightarrow>
   (\<exists>q. py_int_div fa (s + 1) n = Inr q) \<and>
   list_all2 (\<lambda>b r. spec_rate fa b e (s + 1) n = Inr r) bs rs"
proof (cases "py_int_div fa (s + 1) n")
  case (Inl x)
  then show ?thesis by (simp add: get_lr_unfold)
next
  case (Inr q)
  have "(\<lambda>b r. spec_rate fa b e (s + 1) n = Inr r) =
        (\<lambda>b r. \<exists>ratio p. py_fdiv fa e b = Inr ratio \<and> py_pow fa ratio q = Inr p \<and>
                  r = py_fmul fa b p)"
    using Inr by (auto simp add: spec_rate_def fun_eq_iff split: sum.splits)
  then show ?thesis using Inr by (simp add: get_lr_unfold anneal_all_spec)
qed

text \<open>The first step of the schedule: the exponent is 0, and every rate is the start rate.\<close>

lemma anneal_all_start:
  assumes "sound_arith fa" "\<forall>b\<in>set bs. b \<noteq> 0 \<and> fl_round fa b = Fin b"
  shows "anneal_all fa e 0 bs = Inr (map Fin bs)"
  using assms(2) by (induction bs) (simp_all add: py_fdiv_def py_pow_def py_fmul_def)

lemma get_lr_start:
  assumes "sound_arith fa" "0 < n" "\<forall>b\<in>set bs. b \<noteq> 0 \<and> fl_round fa b = Fin b"
  shows "get_lr fa \<lparr> end_lr = e, iterations = n, exp_last_epoch = - 1, base_lrs = bs \<rparr> =
           Inr (map Fin bs)"
  using assms(2) anneal_all_start [OF assms(1,3)] sound_round_zero [OF assms(1)]
  by (simp add: get_lr_unfold py_int_div_def)

text \<open>The last step of the schedule, from the start rate 1: the exponent is 1.\<close>

lemma get_lr_end:
  assumes "sound_arith fa" "0 < n" "0 < e" "fl_round fa e = Fin e"
  shows "get_lr fa \<lparr> end_lr = e, iterations = n, exp_last_epoch = n - 1, base_lrs = [1] \<rparr> =
           Inr [Fin e]"
proof -
  have q: "py_int_div fa n n = Inr 1"
    using assms(2) sound_round_one [OF assms(1)] by (simp add: py_int_div_def)
  have d: "py_fdiv fa e 1 = Inr (Fin e)" using assms(4) by (simp add: py_fdiv_def)
  have p: "py_pow fa (Fin e) 1 = Inr (Fin e)"
    using assms(3) sound_pow_one [OF assms(1,3,4)] by (simp add: py_pow_def)
  have m: "py_fmul fa 1 (Fin e) = Fin e" using assms(4) by (simp add: py_fmul_def)
  show ?thesis by (simp add: get_lr_unfold q d p m)
qed

text \<open>Within the schedule no group raises, when the end rate is below every start rate.\<close>

lemma anneal_all_returns:
  assumes "sound_arith fa" "0 < e" "0 \<le> q" "\<forall>b\<in>set bs. e < b"
  shows "\<exists>rs. anneal_all fa e q bs = Inr rs"
  using assms(4)
proof (induction bs)
  case Nil
  then show ?case by simp
next
  case (Cons b bs)
  then have "e < b" by simp
  then obtain r where r: "py_fdiv fa e b = Inr (Fin r)" "0 \<le> r" "r \<le> 1"
    using ratio_unit_interval [OF assms(1,2)] by blast
  obtain v where v: "py_pow fa (Fin r) q = Inr (Fin v)"
    using pow_unit_interval [OF assms(1) r(2,3) assms(3)] by blast
  obtain rs where "anneal_all fa e q bs = Inr rs" using Cons by auto
  then show ?case using r(1) v by simp
qed

lemma int_div_mono:
  assumes "sound_arith fa" "0 < n" "s \<le> t"
    and "py_int_div fa s n = Inr q" "py_int_div fa t n = Inr q'"
  shows "q \<le> q'"
proof -
  have "(of_int s / of_int n :: real) \<le> of_int t / of_int n"
    using assms(2,3) by (simp add: divide_right_mono)
  then have "flt_le (fl_round fa (of_int s / of_int n)) (fl_round fa (of_int t / of_int n))"
    using assms(1) by (simp add: sound_round_mono)
  moreover have "fl_round fa (of_int s / of_int n) = Fin q"
    using assms(2,4) by (cases "fl_round fa (of_int s / of_int n)") (simp_all add: py_int_div_def)
  moreover have "fl_round fa (of_int t / of_int n) = Fin q'"
    using assms(2,5) by (cases "fl_round fa (of_int t / of_int n)") (simp_all add: py_int_div_def)
  ultimately show ?thesis by simp
qed

lemma get_lr_returns:
  assumes "sound_arith fa" "0 < e" "0 < n" "- 1 \<le> s" "\<forall>b\<in>set bs. e < b"
    and "py_int_div fa (s + 1) n = Inr q"
  shows "\<exists>rs. get_lr fa \<lparr> end_lr = e, iterations = n, exp_last_epoch = s, base_lrs = bs \<rparr> = Inr rs"
proof -
  have z: "py_int_div fa 0 n = Inr 0"
    using assms(3) sound_round_zero [OF assms(1)] by (simp add: py_int_div_def)
  have "0 \<le> s + 1" using assms(4) by simp
  then have "0 \<le> q" using int_div_mono [OF assms(1,3) _ z assms(6)] by simp
  then show ?thesis
    using anneal_all_returns [OF assms(1,2) _ assms(5)] assms(6) by (simp add: get_lr_unfold)
qed

lemma anneal_all_nth:
  assumes "anneal_all fa e q bs = Inr rs" "i < length bs"
  shows "length rs = length bs \<and>
         (\<exists>ratio p. py_fdiv fa e (bs ! i) = Inr ratio \<and> py_pow fa ratio q = Inr p \<and>
            rs ! i = py_fmul fa (bs ! i) p)"
  using assms(1) [unfolded anneal_all_spec] assms(2)
  by (auto simp add: list_all2_conv_all_nth)

lemma get_lr_antitone:
  assumes "sound_arith fa" "0 < e" "0 < n" "s \<le> t"
    and "get_lr fa \<lparr> end_lr = e, iterations = n, exp_last_epoch = s, base_lrs = bs \<rparr> = Inr rs"
    and "get_lr fa \<lparr> end_lr = e, iterations = n, exp_last_epoch = t, base_lrs = bs \<rparr> = Inr rt"
    and "i < length bs" "e < bs ! i"
  shows "flt_le (rt ! i) (rs ! i)"
proof -
  obtain q where q: "py_int_div fa (s + 1) n = Inr q" "anneal_all fa e q bs = Inr rs"
    using assms(5) by (cases "py_int_div fa (s + 1) n") (simp_all add: get_lr_unfold)
  obtain q' where q': "py_int_div fa (t + 1) n = Inr q'" "anneal_all fa e q' bs = Inr rt"
    using assms(6) by (cases "py_int_div fa (t + 1) n") (simp_all add: get_lr_unfold)
  have "s + 1 \<le> t + 1" using assms(4) by simp
  then have le: "q \<le> q'" using int_div_mono [OF assms(1,3) _ q(1) q'(1)] by simp
  obtain ratio p where a: "py_fdiv fa e (bs ! i) = Inr ratio" "py_pow fa ratio q = Inr p"
    "rs ! i = py_fmul fa (bs ! i) p"
    using anneal_all_nth [OF q(2) assms(7)] by blast
  obtain ratio' p' where b: "py_fdiv fa e (bs ! i) = Inr ratio'" "py_pow fa ratio' q' = Inr p'"
    "rt ! i = py_fmul fa (bs ! i) p'"
    using anneal_all_nth [OF q'(2) assms(7)] by blast
  have "ratio' = ratio" using a(1) b(1) by simp
  then show ?thesis
    using one_rate_antitone [OF assms(1,2,8) le a(1,2)] b(2) a(3) b(3) by simp
qed

text \<open>The two example arithmetics are sound.\<close>

lemma exact_arith_sound: "sound_arith exact_arith"
  by (simp add: sound_arith_def exact_arith_def powr_mono')

lemma coarse_round_mono: "x \<le> y \<Longrightarrow> flt_le (coarse_round x) (coarse_round y)"
proof -
  assume "x \<le> y"
  then have "\<lfloor>x * 1000\<rfloor> \<le> \<lfloor>y * 1000\<rfloor>" by (simp add: floor_mono)
  then have "(of_int \<lfloor>x * 1000\<rfloor> :: real) \<le> of_int \<lfloor>y * 1000\<rfloor>" by simp
  then show ?thesis using \<open>x \<le> y\<close> by (simp add: coarse_round_def divide_right_mono)
qed

lemma coarse_round_nonneg: "0 \<le> x \<Longrightarrow> flt_le (Fin 0) (coarse_round x)"
  using coarse_round_mono [of 0 x] by (simp add: coarse_round_def)

lemma coarse_arith_sound: "sound_arith coarse_arith"
  unfolding sound_arith_def
proof (intro conjI allI impI)
  fix x y :: real
  assume "x \<le> y"
  then show "flt_le (fl_round coarse_arith x) (fl_round coarse_arith y)"
    by (simp add: coarse_arith_def coarse_round_mono)
next
  show "fl_round coarse_arith 0 = Fin 0" by (simp add: coarse_arith_def coarse_round_def)
next
  show "fl_round coarse_arith 1 = Fin 1" by (simp add: coarse_arith_def coarse_round_def)
next
  fix x y :: real
  assume "0 < x"
  show "flt_le (Fin 0) (fl_pow coarse_arith x y)"
    by (simp add: coarse_arith_def coarse_round_nonneg)
next
  fix x :: real
  assume "0 < x"
  then show "fl_pow coarse_arith x 0 = Fin 1"
    by (simp add: coarse_arith_def coarse_round_def)
next
  fix x :: real
  assume "0 < x \<and> fl_round coarse_arith x = Fin x"
  then show "fl_pow coarse_arith x 1 = Fin x"
    by (simp add: coarse_arith_def)
next
  fix x y y' :: real
  assume "0 < x \<and> x < 1 \<and> y \<le> y'"
  then have "x powr y' \<le> x powr y" by (simp add: powr_mono')
  then show "flt_le (fl_pow coarse_arith x y') (fl_pow coarse_arith x y)"
    by (simp add: coarse_arith_def coarse_round_mono)
qed

text \<open>The example of the spec, in exact arithmetic, and a small one in the coarse arithmetic.\<close>

lemma root_of_power:
  assumes "0 < (x::real)"
  shows "(x ^ 100) powr (1/100) = x"
proof -
  have "x powr 100 = x ^ 100" using assms by (simp add: powr_numeral)
  then have "(x ^ 100) powr (1/100) = (x powr 100) powr (1/100)" by simp
  also have "\<dots> = x powr (100 * (1/100))" by (rule powr_powr)
  also have "\<dots> = x" using assms by simp
  finally show ?thesis .
qed

lemma hundredth_root_upper: "(1/100 :: real) powr (1/100) < 96/100"
proof -
  have "(1/100 :: real) < (96/100) ^ 100" by (simp add: power_divide)
  then have "(1/100 :: real) powr (1/100) < ((96/100) ^ 100) powr (1/100)"
    by (intro powr_less_mono2) simp_all
  also have "((96/100 :: real) ^ 100) powr (1/100) = 96/100"
    by (rule root_of_power) simp
  finally show ?thesis .
qed

lemma hundredth_root_lower: "95/100 < (1/100 :: real) powr (1/100)"
proof -
  have "(95/100 :: real) ^ 100 < 1/100" by (simp add: power_divide)
  then have "((95/100 :: real) ^ 100) powr (1/100) < (1/100) powr (1/100)"
    by (intro powr_less_mono2) simp_all
  moreover have "((95/100 :: real) ^ 100) powr (1/100) = 95/100"
    by (rule root_of_power) simp
  ultimately show ?thesis by simp
qed

lemma hundredth_power_next: "(1/100 :: real) powr (101/100) = (1/100) * (1/100) powr (1/100)"
proof -
  have "(1/100 :: real) powr (101/100) = (1/100) powr (1 + 1/100)" by simp
  also have "\<dots> = (1/100) powr 1 * (1/100) powr (1/100)" by (rule powr_add)
  finally show ?thesis by simp
qed

lemma exact_step_0:
  "get_lr exact_arith \<lparr> end_lr = 1/100, iterations = 100, exp_last_epoch = 0, base_lrs = [1] \<rparr> =
     Inr [Fin ((1/100) powr (1/100))]"
  by (simp add: get_lr_unfold py_int_div_def py_fdiv_def py_pow_def py_fmul_def exact_arith_def)

lemma exact_step_100:
  "get_lr exact_arith \<lparr> end_lr = 1/100, iterations = 100, exp_last_epoch = 100, base_lrs = [1] \<rparr> =
     Inr [Fin ((1/100) powr (101/100))]"
  by (simp add: get_lr_unfold py_int_div_def py_fdiv_def py_pow_def py_fmul_def exact_arith_def)

lemma exact_example:
  "\<exists>v w. get_lr exact_arith
            \<lparr> end_lr = 1/100, iterations = 100, exp_last_epoch = 0, base_lrs = [1] \<rparr> = Inr [Fin v] \<and>
         95/100 < v \<and> v < 96/100 \<and>
         get_lr exact_arith
            \<lparr> end_lr = 1/100, iterations = 100, exp_last_epoch = 100, base_lrs = [1] \<rparr> = Inr [Fin w] \<and>
         95/10000 < w \<and> w < 96/10000"
proof (intro exI conjI)
  show "get_lr exact_arith
          \<lparr> end_lr = 1/100, iterations = 100, exp_last_epoch = 0, base_lrs = [1] \<rparr> =
        Inr [Fin ((1/100) powr (1/100))]"
    by (rule exact_step_0)
  show "95/100 < (1/100 :: real) powr (1/100)" by (rule hundredth_root_lower)
  show "(1/100 :: real) powr (1/100) < 96/100" by (rule hundredth_root_upper)
  show "get_lr exact_arith
          \<lparr> end_lr = 1/100, iterations = 100, exp_last_epoch = 100, base_lrs = [1] \<rparr> =
        Inr [Fin ((1/100) powr (101/100))]"
    by (rule exact_step_100)
  show "95/10000 < (1/100 :: real) powr (101/100)"
    using hundredth_root_lower by (simp add: hundredth_power_next)
  show "(1/100 :: real) powr (101/100) < 96/10000"
    using hundredth_root_upper by (simp add: hundredth_power_next)
qed

lemma quarter_root: "(1/4 :: real) powr (1/2) = 1/2"
  by (simp add: powr_half_sqrt real_sqrt_divide)

lemma coarse_round_values:
  "coarse_round 0 = Fin 0" "coarse_round 1 = Fin 1" "coarse_round (1/2) = Fin (1/2)"
  "coarse_round (1/4) = Fin (1/4)" "coarse_round (1/2000) = Fin 0"
  by (simp_all add: coarse_round_def)

lemma coarse_step_0:
  "get_lr coarse_arith \<lparr> end_lr = 1/4, iterations = 2, exp_last_epoch = 0, base_lrs = [1] \<rparr> =
     Inr [Fin (1/2)]"
  by (simp add: get_lr_unfold py_int_div_def py_fdiv_def py_pow_def py_fmul_def coarse_arith_def
      coarse_round_values quarter_root)

lemma coarse_int_div: "py_int_div coarse_arith 1 2 = Inr (1/2)"
  by (simp add: py_int_div_def coarse_arith_def coarse_round_values)

text \<open>
  Rounded rates can repeat, so that the sequence of rates is not strictly decreasing:
  in the coarse arithmetic, with 2000 iterations, the exponent of step 0 rounds to the
  exponent of step -1.
\<close>

lemma rounded_rates_repeat:
  "get_lr coarse_arith \<lparr> end_lr = 1/4, iterations = 2000, exp_last_epoch = - 1, base_lrs = [1] \<rparr> =
     Inr [Fin 1] \<and>
   get_lr coarse_arith \<lparr> end_lr = 1/4, iterations = 2000, exp_last_epoch = 0, base_lrs = [1] \<rparr> =
     Inr [Fin 1]"
  by (simp add: get_lr_unfold py_int_div_def py_fdiv_def py_pow_def py_fmul_def coarse_arith_def
      coarse_round_values)

text \<open>
  Outside the conditions of the schedule \<^verbatim>\<open>get_lr\<close> can raise: an end rate above the start
  rate overflows in the coarse arithmetic at the exponent 2.
\<close>

lemma growing_rate_overflows:
  "get_lr coarse_arith \<lparr> end_lr = 100, iterations = 1, exp_last_epoch = 1, base_lrs = [1] \<rparr> =
     Inl OverflowError"
  by (simp add: get_lr_unfold py_int_div_def py_fdiv_def py_pow_def py_fmul_def coarse_arith_def
      coarse_round_def powr_numeral)

text \<open>
  C9 (as amended). \<^verbatim>\<open>get_lr\<close> at \<open>last_epoch = s\<close> gives each group the rate of the spec,
  \<open>start_lr * (end_lr / start_lr) ^ (k / total_steps)\<close> in floating-point arithmetic, at
  \<open>k = s + 1\<close> and not at \<open>k = s\<close>, and raises where that rate raises. In every sound
  arithmetic the rates at step -1 are the start rates, and from the start rate 1 the rate
  at step \<open>total_steps - 1\<close> is the end rate. With \<open>start_lr = 1\<close>, \<open>end_lr = 0.01\<close> and 100
  steps the rate at step 0 is between 0.95 and 0.96 and the rate at step 100 between
  0.0095 and 0.0096 (in exact arithmetic). For a positive end rate below the start rates
  every step from -1 on returns rates when its exponent is a float, and the rate of a
  group at a later step is at most its rate at an earlier step: the sequence is monotone
  decreasing, not always strictly.
\<close>

theorem get_lr_exponential_schedule:
  "(get_lr fa \<lparr> end_lr = e, iterations = n, exp_last_epoch = s, base_lrs = bs \<rparr> = Inr rs \<longleftrightarrow>
      (\<exists>q. py_int_div fa (s + 1) n = Inr q) \<and>
      list_all2 (\<lambda>b r. spec_rate fa b e (s + 1) n = Inr r) bs rs) \<and>
   (sound_arith fa \<and> 0 < n \<and> (\<forall>b\<in>set bs. b \<noteq> 0 \<and> fl_round fa b = Fin b) \<longrightarrow>
      get_lr fa \<lparr> end_lr = e, iterations = n, exp_last_epoch = - 1, base_lrs = bs \<rparr> =
        Inr (map Fin bs)) \<and>
   (sound_arith fa \<and> 0 < n \<and> 0 < e \<and> fl_round fa e = Fin e \<longrightarrow>
      get_lr fa \<lparr> end_lr = e, iterations = n, exp_last_epoch = n - 1, base_lrs = [1] \<rparr> =
        Inr [Fin e]) \<and>
   (\<exists>v w. get_lr exact_arith
            \<lparr> end_lr = 1/100, iterations = 100, exp_last_epoch = 0, base_lrs = [1] \<rparr> = Inr [Fin v] \<and>
         95/100 < v \<and> v < 96/100 \<and>
         get_lr exact_arith
            \<lparr> end_lr = 1/100, iterations = 100, exp_last_epoch = 100, base_lrs = [1] \<rparr> = Inr [Fin w] \<and>
         95/10000 < w \<and> w < 96/10000) \<and>
   (sound_arith fa \<and> 0 < e \<and> 0 < n \<and> - 1 \<le> s \<and> (\<forall>b\<in>set bs. e < b) \<and>
      (\<exists>q. py_int_div fa (s + 1) n = Inr q) \<longrightarrow>
      (\<exists>rs. get_lr fa \<lparr> end_lr = e, iterations = n, exp_last_epoch = s, base_lrs = bs \<rparr> =
         Inr rs)) \<and>
   (sound_arith fa \<and> 0 < e \<and> 0 < n \<and> s \<le> t \<and>
      get_lr fa \<lparr> end_lr = e, iterations = n, exp_last_epoch = s, base_lrs = bs \<rparr> = Inr rs \<and>
      get_lr fa \<lparr> end_lr = e, iterations = n, exp_last_epoch = t, base_lrs = bs \<rparr> = Inr rt \<longrightarrow>
      (\<forall>i<length bs. e < bs ! i \<longrightarrow> flt_le (rt ! i) (rs ! i)))"
proof (intro conjI)
  show "get_lr fa \<lparr> end_lr = e, iterations = n, exp_last_epoch = s, base_lrs = bs \<rparr> = Inr rs \<longleftrightarrow>
      (\<exists>q. py_int_div fa (s + 1) n = Inr q) \<and>
      list_all2 (\<lambda>b r. spec_rate fa b e (s + 1) n = Inr r) bs rs"
    by (rule get_lr_refines)
  show "sound_arith fa \<and> 0 < n \<and> (\<forall>b\<in>set bs. b \<noteq> 0 \<and> fl_round fa b = Fin b) \<longrightarrow>
      get_lr fa \<lparr> end_lr = e, iterations = n, exp_last_epoch = - 1, base_lrs = bs \<rparr> =
        Inr (map Fin bs)"
    using get_lr_start by blast
  show "sound_arith fa \<and> 0 < n \<and> 0 < e \<and> fl_round fa e = Fin e \<longrightarrow>
      get_lr fa \<lparr> end_lr = e, iterations = n, exp_last_epoch = n - 1, base_lrs = [1] \<rparr> =
        Inr [Fin e]"
    using get_lr_end by blast
  show "\<exists>v w. get_lr exact_arith
            \<lparr> end_lr = 1/100, iterations = 100, exp_last_epoch = 0, base_lrs = [1] \<rparr> = Inr [Fin v] \<and>
         95/100 < v \<and> v < 96/100 \<and>
         get_lr exact_arith
            \<lparr> end_lr = 1/100, iterations = 100, exp_last_epoch = 100, base_lrs = [1] \<rparr> = Inr [Fin w] \<and>
         95/10000 < w \<and> w < 96/10000"
    by (rule exact_example)
  show "sound_arith fa \<and> 0 < e \<and> 0 < n \<and> - 1 \<le> s \<and> (\<forall>b\<in>set bs. e < b) \<and>
      (\<exists>q. py_int_div fa (s + 1) n = Inr q) \<longrightarrow>
      (\<exists>rs. get_lr fa \<lparr> end_lr = e, iterations = n, exp_last_epoch = s, base_lrs = bs \<rparr> =
         Inr rs)"
    using get_lr_returns by blast
  show "sound_arith fa \<and> 0 < e \<and> 0 < n \<and> s \<le> t \<and>
      get_lr fa \<lparr> end_lr = e, iterations = n, exp_last_epoch = s, base_lrs = bs \<rparr> = Inr rs \<and>
      get_lr fa \<lparr> end_lr = e, iterations = n, exp_last_epoch = t, base_lrs = bs \<rparr> = Inr rt \<longrightarrow>
      (\<forall>i<length bs. e < bs ! i \<longrightarrow> flt_le (rt ! i) (rs ! i))"
    using get_lr_antitone by blast
qed

theorem get_lr_exponential_schedule_witness:
  "get_lr coarse_arith \<lparr> end_lr = 1/4, iterations = 2, exp_last_epoch = - 1, base_lrs = [1] \<rparr> =
     Inr [Fin 1] \<and>
   get_lr coarse_arith \<lparr> end_lr = 1/4, iterations = 2, exp_last_epoch = 1, base_lrs = [1] \<rparr> =
     Inr [Fin (1/4)] \<and>
   (\<exists>rs. get_lr coarse_arith
           \<lparr> end_lr = 1/4, iterations = 2, exp_last_epoch = 0, base_lrs = [1] \<rparr> = Inr rs) \<and>
   spec_rate coarse_arith 1 (1/4) 1 2 = Inr (Fin (1/2)) \<and>
   flt_le (Fin (1/4)) (Fin (1/2))"
proof -
  note sch = get_lr_exponential_schedule
    [where fa = coarse_arith and e = "1/4" and n = 2 and bs = "[1]"]
  have fl: "fl_round coarse_arith 1 = Fin 1" "fl_round coarse_arith (1/4) = Fin (1/4)"
    by (simp_all add: coarse_arith_def coarse_round_values)
  have a: "get_lr coarse_arith
             \<lparr> end_lr = 1/4, iterations = 2, exp_last_epoch = - 1, base_lrs = [1] \<rparr> = Inr [Fin 1]"
    using sch [THEN conjunct2, THEN conjunct1] coarse_arith_sound fl by simp
  have b: "get_lr coarse_arith
             \<lparr> end_lr = 1/4, iterations = 2, exp_last_epoch = 1, base_lrs = [1] \<rparr> = Inr [Fin (1/4)]"
    using sch [THEN conjunct2, THEN conjunct2, THEN conjunct1] coarse_arith_sound fl by simp
  have "py_int_div coarse_arith (0 + 1) 2 = Inr (1/2)"
    using coarse_int_div by simp
  then have q: "\<exists>q. py_int_div coarse_arith (0 + 1) 2 = Inr q" ..
  have c: "\<exists>rs. get_lr coarse_arith
             \<lparr> end_lr = 1/4, iterations = 2, exp_last_epoch = 0, base_lrs = [1] \<rparr> = Inr rs"
    using sch [where s = 0, THEN conjunct2, THEN conjunct2, THEN conjunct2, THEN conjunct2,
        THEN conjunct1] coarse_arith_sound q by (simp del: One_nat_def add_0)
  have d: "spec_rate coarse_arith 1 (1/4) 1 2 = Inr (Fin (1/2))"
    using sch [where s = 0 and rs = "[Fin (1/2)]", THEN conjunct1] coarse_step_0 by simp
  have e: "flt_le (Fin (1/4)) (Fin (1/2))"
    using sch [where s = 0 and t = 1 and rs = "[Fin (1/2)]" and rt = "[Fin (1/4)]",
        THEN conjunct2, THEN conjunct2, THEN conjunct2, THEN conjunct2, THEN conjunct2]
      coarse_arith_sound coarse_step_0 b by simp
  from a b c d e show ?thesis by blast
qed

text \<open>
  The claim as written fails: with \<open>start_lr = 1\<close>, \<open>end_lr = 0.01\<close> and 100 steps the rate
  at step 0 is \<open>0.01 powr 0.01\<close>, below 0.96, where the rate of the claim at step 0 is 1;
  and in the coarse arithmetic, with the end rate 0.25 and 2 steps, the rate at step 0
  is 0.5, where the rate of the claim is 1.
\<close>

theorem get_lr_step_zero_counterexample:
  "get_lr exact_arith \<lparr> end_lr = 1/100, iterations = 100, exp_last_epoch = 0, base_lrs = [1] \<rparr> =
     Inr [Fin ((1/100) powr (1/100))] \<and>
   (1/100 :: real) powr (1/100) < 96/100 \<and>
   spec_rate exact_arith 1 (1/100) 0 100 = Inr (Fin 1) \<and>
   get_lr coarse_arith \<lparr> end_lr = 1/4, iterations = 2, exp_last_epoch = 0, base_lrs = [1] \<rparr> =
     Inr [Fin (1/2)] \<and>
   spec_rate coarse_arith 1 (1/4) 0 2 = Inr (Fin 1)"
proof (intro conjI)
  show "get_lr exact_arith
          \<lparr> end_lr = 1/100, iterations = 100, exp_last_epoch = 0, base_lrs = [1] \<rparr> =
        Inr [Fin ((1/100) powr (1/100))]"
    by (rule exact_step_0)
  show "(1/100 :: real) powr (1/100) < 96/100" by (rule hundredth_root_upper)
  show "spec_rate exact_arith 1 (1/100) 0 100 = Inr (Fin 1)"
    by (simp add: spec_rate_def py_int_div_def py_fdiv_def py_pow_def py_fmul_def exact_arith_def)
  show "get_lr coarse_arith
          \<lparr> end_lr = 1/4, iterations = 2, exp_last_epoch = 0, base_lrs = [1] \<rparr> = Inr [Fin (1/2)]"
    by (rule coarse_step_0)
  show "spec_rate coarse_arith 1 (1/4) 0 2 = Inr (Fin 1)"
    by (simp add: spec_rate_def py_int_div_def py_fdiv_def py_pow_def py_fmul_def coarse_arith_def
        coarse_round_values)
qed

end
